theory Spec2Isabelle
  imports
    Complex_Main
    "HOL-Library.Char_ord"
    "HOL-Library.List_Lexorder"
    "HOL-Library.Product_Lexorder"
    "HOL-Library.Multiset"
    "HOL-Library.Sublist"
begin

section \<open>Data model\<close>

text \<open>
  The catalogue and the cache of \<^verbatim>\<open>app.py\<close> are JSON documents read into Python
  dictionaries. A dictionary with a fixed set of keys is a record here; a key that may be
  missing, or whose value may be Python's \<^verbatim>\<open>None\<close>, is an \<open>option\<close> field.

  Text is \<open>string\<close>: a list of the code points \<open>U+0000\<close> to \<open>U+00FF\<close>, one \<open>char\<close>
  each. Python's character tests are written out for that range below.

  The value under an episode's \<^verbatim>\<open>number\<close> key is whatever the JSON held there:
  \<^verbatim>\<open>null\<close>, a string or a number. \<open>PNum r\<close> is a number with the value \<open>r\<close>, an
  \<^verbatim>\<open>int\<close> or a finite \<^verbatim>\<open>float\<close>; \<open>PInfinity\<close>, \<open>PNegInfinity\<close> and \<open>PNaN\<close>
  are the floats that \<^verbatim>\<open>json.load\<close> makes of the literals \<^verbatim>\<open>Infinity\<close>,
  \<^verbatim>\<open>-Infinity\<close> and \<^verbatim>\<open>NaN\<close>.
\<close>

datatype pyval = PNone | PNum rat | PInfinity | PNegInfinity | PNaN | PStr string

datatype py_error = TypeError | ValueError | KeyError | OverflowError

text \<open>
  An episode as the resolution pipeline hands it on: the dictionary with the keys
  \<^verbatim>\<open>number\<close>, \<^verbatim>\<open>title\<close>, \<^verbatim>\<open>url\<close> and \<^verbatim>\<open>session\<close> built by
  \<^verbatim>\<open>get_episodes\<close> and by the scraper's extraction methods.
\<close>

record episode =
  number :: pyval
  title :: string
  url :: "string option"
  session :: "string option"

section \<open>Episode deduplication\<close>



section \<open>Floating-point numbers\<close>

text \<open>
  A Python \<^verbatim>\<open>float\<close> is an IEEE 754 double. A double other than \<^verbatim>\<open>nan\<close> is the
  rational it denotes; the two infinities are the rationals \<open>2 ^ 1024\<close> and
  \<open>- (2 ^ 1024)\<close>, which compare with the finite doubles and with each other as the
  infinities do. The two zeros are one value, as they are for every comparison.

  \<open>round_double x\<close> is the double nearest to \<open>x\<close>, the one with the even mantissa
  when two are equally near, and an infinity beyond the range: with \<open>e\<close> the exponent
  of the last mantissa bit (52 below the exponent of \<open>x\<close>, and \<open>-1074\<close> for the
  subnormal numbers), \<open>x\<close> is rounded to a multiple of \<open>2 ^ e\<close>. The sum and the
  product of two doubles are the exact results rounded.
\<close>

function bit_length :: "int \<Rightarrow> nat" where
  "bit_length n = (if n \<le> 0 then 0 else Suc (bit_length (n div 2)))"
  by pat_completeness auto
termination
  by (relation "measure nat") auto

declare bit_length.simps [simp del]

definition pow2 :: "int \<Rightarrow> rat" where
  "pow2 e = (if 0 \<le> e then 2 ^ nat e else 1 / 2 ^ nat (- e))"

text \<open>For \<open>0 < x\<close>, the exponent \<open>e\<close> with \<open>2 ^ e \<le> x < 2 ^ (e + 1)\<close>.\<close>

definition floor_log2 :: "rat \<Rightarrow> int" where
  "floor_log2 x =
     (if 1 \<le> x then int (bit_length \<lfloor>x\<rfloor>) - 1
      else - int (bit_length (\<lceil>1 / x\<rceil> - 1)))"

definition round_half_even :: "rat \<Rightarrow> int" where
  "round_half_even q =
     (let n = \<lfloor>q\<rfloor>; d = q - of_int n
      in if d < 1 / 2 then n else if 1 / 2 < d then n + 1 else if even n then n else n + 1)"

definition infinity :: rat where
  "infinity = of_int (2 ^ 1024)"

definition round_double :: "rat \<Rightarrow> rat" where
  "round_double x =
     (if x = 0 then 0
      else
        (let e = max (floor_log2 \<bar>x\<bar> - 52) (- 1074);
             y = of_int (round_half_even (x / pow2 e)) * pow2 e
         in if infinity \<le> y then infinity else if y \<le> - infinity then - infinity else y))"

definition float_add :: "rat \<Rightarrow> rat \<Rightarrow> rat" where
  "float_add x y = round_double (x + y)"

definition float_mul :: "rat \<Rightarrow> rat \<Rightarrow> rat" where
  "float_mul x y = round_double (x * y)"

datatype pyfloat = Float rat | NaN

section \<open>Library functions taken as parameters\<close>

text \<open>
  Five functions of Python's standard library are not part of the repository and are
  parameters of the model: \<open>nfkd_ascii\<close> is
  \<^verbatim>\<open>unicodedata.normalize('NFKD', s).encode('ascii', 'ignore').decode('ascii')\<close>;
  \<open>seq_ratio a b\<close> is the double that \<^verbatim>\<open>difflib.SequenceMatcher(None, a, b).ratio()\<close>
  returns, a finite number; \<open>float_of_str\<close> and \<open>int_of_str\<close> are \<^verbatim>\<open>float\<close> and
  \<^verbatim>\<open>int\<close> on a string, with \<open>None\<close> where Python raises \<^verbatim>\<open>ValueError\<close>; and
  \<open>sort_with_nan ks\<close> is the order in which \<^verbatim>\<open>list.sort\<close> leaves a list whose keys
  are the floats \<open>ks\<close> when one of them is \<^verbatim>\<open>nan\<close>, as the list of the old positions
  of the elements. Every comparison with \<^verbatim>\<open>nan\<close> is false, so that order is neither
  the stored nor a sorted one, and it is a matter of the sorting algorithm of the library.
\<close>

record pylib =
  nfkd_ascii :: "string \<Rightarrow> string"
  seq_ratio :: "string \<Rightarrow> string \<Rightarrow> rat"
  float_of_str :: "string \<Rightarrow> pyfloat option"
  int_of_str :: "string \<Rightarrow> int option"
  sort_with_nan :: "pyfloat list \<Rightarrow> nat list"

text \<open>
  \<^verbatim>\<open>float(v)\<close> and \<^verbatim>\<open>int(v)\<close>. \<^verbatim>\<open>float\<close> of a number is the nearest double, and
  \<^verbatim>\<open>OverflowError\<close> for an \<^verbatim>\<open>int\<close> beyond the range of the doubles (a finite float
  is a double already and is its own nearest double). \<^verbatim>\<open>int\<close> of a number truncates
  towards zero; \<^verbatim>\<open>int\<close> of an infinity raises \<^verbatim>\<open>OverflowError\<close> and \<^verbatim>\<open>int\<close> of
  \<^verbatim>\<open>nan\<close> raises \<^verbatim>\<open>ValueError\<close>.
\<close>

definition py_float :: "pylib \<Rightarrow> pyval \<Rightarrow> py_error + pyfloat" where
  "py_float L v =
     (case v of
        PNone \<Rightarrow> Inl TypeError
      | PNum r \<Rightarrow>
          if \<bar>round_double r\<bar> = infinity then Inl OverflowError
          else Inr (Float (round_double r))
      | PInfinity \<Rightarrow> Inr (Float infinity)
      | PNegInfinity \<Rightarrow> Inr (Float (- infinity))
      | PNaN \<Rightarrow> Inr NaN
      | PStr s \<Rightarrow> (case float_of_str L s of None \<Rightarrow> Inl ValueError | Some x \<Rightarrow> Inr x))"

definition py_int :: "pylib \<Rightarrow> pyval \<Rightarrow> py_error + int" where
  "py_int L v =
     (case v of
        PNone \<Rightarrow> Inl TypeError
      | PNum r \<Rightarrow> Inr (if 0 \<le> r then \<lfloor>r\<rfloor> else \<lceil>r\<rceil>)
      | PInfinity \<Rightarrow> Inl OverflowError
      | PNegInfinity \<Rightarrow> Inl OverflowError
      | PNaN \<Rightarrow> Inl ValueError
      | PStr s \<Rightarrow> (case int_of_str L s of None \<Rightarrow> Inl ValueError | Some i \<Rightarrow> Inr i))"

text \<open>
  \<^verbatim>\<open>xs.sort(key=f)\<close>: the keys of all elements are computed first, in list order; the
  first key that raises ends the call with the list as it was. Otherwise the elements are
  sorted by their keys, equal keys keeping their order.
\<close>

fun sort_keys :: "('a \<Rightarrow> py_error + 'k) \<Rightarrow> 'a list \<Rightarrow> py_error + 'k list" where
  "sort_keys f [] = Inr []"
| "sort_keys f (x # xs) =
     (case f x of
        Inl e \<Rightarrow> Inl e
      | Inr k \<Rightarrow> (case sort_keys f xs of Inl e \<Rightarrow> Inl e | Inr ks \<Rightarrow> Inr (k # ks)))"

definition list_sort :: "('a \<Rightarrow> py_error + 'k::linorder) \<Rightarrow> 'a list \<Rightarrow> py_error + 'a list" where
  "list_sort f xs =
     (case sort_keys f xs of
        Inl e \<Rightarrow> Inl e
      | Inr ks \<Rightarrow> Inr (map snd (sort_key fst (zip ks xs))))"

text \<open>
  The same with keys that are floats: when no key is \<^verbatim>\<open>nan\<close> the floats are ordered
  as the numbers they are; when one is, the order is that of the library.
\<close>

definition float_value :: "pyfloat \<Rightarrow> rat" where
  "float_value x = (case x of Float r \<Rightarrow> r | NaN \<Rightarrow> 0)"

definition list_sort_float ::
  "pylib \<Rightarrow> ('a \<Rightarrow> py_error + pyfloat) \<Rightarrow> 'a list \<Rightarrow> py_error + 'a list" where
  "list_sort_float L f xs =
     (case sort_keys f xs of
        Inl e \<Rightarrow> Inl e
      | Inr ks \<Rightarrow>
          if NaN \<in> set ks then Inr (map (\<lambda>i. xs ! i) (sort_with_nan L ks))
          else Inr (map snd (sort_key (\<lambda>p. float_value (fst p)) (zip ks xs))))"

text \<open>
  \<^verbatim>\<open>xs[start:end]\<close> for integers of either sign: a negative bound counts from the end,
  and both bounds are clamped to the list.
\<close>

definition py_slice :: "'a list \<Rightarrow> int \<Rightarrow> int \<Rightarrow> 'a list" where
  "py_slice xs start_index end_index =
     (let n = int (length xs);
          lo = (if start_index < 0 then max 0 (n + start_index) else min n start_index);
          hi = (if end_index < 0 then max 0 (n + end_index) else min n end_index)
      in take (nat (hi - lo)) (drop (nat lo) xs))"

section \<open>The anime index\<close>

text \<open>
  \<^verbatim>\<open>AnimeIndex.all_anime\<close> is the list of anime dictionaries read from the index files.
  An anime has the keys \<^verbatim>\<open>id\<close>, \<^verbatim>\<open>title\<close> and \<^verbatim>\<open>episodes\<close>; an episode of the index
  has the keys \<^verbatim>\<open>number\<close>, \<^verbatim>\<open>title\<close>, \<^verbatim>\<open>url\<close>, \<^verbatim>\<open>episode_id\<close> and
  \<^verbatim>\<open>iframe_url\<close>. The code reads every one of them with \<^verbatim>\<open>.get\<close> or after a test with
  \<^verbatim>\<open>in\<close>, so every field is optional: \<open>None\<close> is a missing key.
\<close>

record index_episode =
  ix_number :: "pyval option"
  ix_title :: "string option"
  ix_url :: "string option"
  episode_id :: "string option"
  iframe_url :: "string option"

record anime =
  a_id :: "string option"
  a_title :: "string option"
  a_episodes :: "index_episode list option"

definition get_anime_by_id :: "anime list \<Rightarrow> string \<Rightarrow> anime option" where
  "get_anime_by_id all_anime anime_id = find (\<lambda>a. a_id a = Some anime_id) all_anime"

definition get_episode :: "anime list \<Rightarrow> string \<Rightarrow> string \<Rightarrow> index_episode option" where
  "get_episode all_anime anime_id episode_session =
     (case get_anime_by_id all_anime anime_id of
        None \<Rightarrow> None
      | Some a \<Rightarrow>
          (case a_episodes a of
             None \<Rightarrow> None
           | Some eps \<Rightarrow> find (\<lambda>ep. episode_id ep = Some episode_session) eps))"

text \<open>
  \<^verbatim>\<open>get_next_episode\<close>. The name \<^verbatim>\<open>episodes\<close> is bound to the list stored in the anime
  dictionary of the index, and \<^verbatim>\<open>episodes.sort\<close> sorts that list in place. The model
  returns the index after the call next to the result: \<open>store_episodes\<close> writes the list
  back into the dictionary that \<open>get_anime_by_id\<close> found, the first one with that id.
\<close>

definition number_key :: "pylib \<Rightarrow> index_episode \<Rightarrow> py_error + pyfloat" where
  "number_key L x = py_float L (case ix_number x of None \<Rightarrow> PNum 0 | Some v \<Rightarrow> v)"

fun next_episode_loop :: "string \<Rightarrow> index_episode list \<Rightarrow> index_episode option" where
  "next_episode_loop current_session [] = None"
| "next_episode_loop current_session (ep # rest) =
     (if episode_id ep = Some current_session
      then (case rest of [] \<Rightarrow> next_episode_loop current_session rest | nxt # _ \<Rightarrow> Some nxt)
      else next_episode_loop current_session rest)"

fun store_episodes :: "string \<Rightarrow> index_episode list \<Rightarrow> anime list \<Rightarrow> anime list" where
  "store_episodes anime_id eps [] = []"
| "store_episodes anime_id eps (a # rest) =
     (if a_id a = Some anime_id then a\<lparr>a_episodes := Some eps\<rparr> # rest
      else a # store_episodes anime_id eps rest)"

definition get_next_episode ::
  "pylib \<Rightarrow> anime list \<Rightarrow> string \<Rightarrow> string \<Rightarrow> index_episode option \<times> anime list" where
  "get_next_episode L all_anime anime_id current_session =
     (case get_anime_by_id all_anime anime_id of
        None \<Rightarrow> (None, all_anime)
      | Some a \<Rightarrow>
          (case a_episodes a of
             None \<Rightarrow> (None, all_anime)
           | Some eps \<Rightarrow>
               (let episodes = (case list_sort_float L (number_key L) eps of
                                  Inl e \<Rightarrow> eps
                                | Inr sorted_eps \<Rightarrow> sorted_eps)
                in (next_episode_loop current_session episodes,
                    store_episodes anime_id episodes all_anime))))"

section \<open>Text\<close>

text \<open>
  Python's character tests on the code points below 256. \<^verbatim>\<open>str.isspace\<close> (also
  \<^verbatim>\<open>\s\<close> and the separators of \<^verbatim>\<open>str.split()\<close> and \<^verbatim>\<open>str.strip()\<close>) holds for
  \<open>U+0009\<close> to \<open>U+000D\<close>, \<open>U+001C\<close> to \<open>U+0020\<close>, \<open>U+0085\<close> and \<open>U+00A0\<close>.
  \<^verbatim>\<open>\d\<close> holds for the decimal digits; \<^verbatim>\<open>str.isdigit\<close> also for the superscripts
  \<open>U+00B2\<close>, \<open>U+00B3\<close> and \<open>U+00B9\<close>. \<^verbatim>\<open>\w\<close> holds for the underscore and for what
  \<^verbatim>\<open>str.isalnum\<close> accepts: the letters, the digits and the fractions \<open>U+00BC\<close> to
  \<open>U+00BE\<close>.
\<close>

definition isspace :: "char \<Rightarrow> bool" where
  "isspace c =
     (let n = (of_char c :: nat)
      in (9 \<le> n \<and> n \<le> 13) \<or> (28 \<le> n \<and> n \<le> 32) \<or> n = 133 \<or> n = 160)"

definition isdecimal :: "char \<Rightarrow> bool" where
  "isdecimal c = (let n = (of_char c :: nat) in 48 \<le> n \<and> n \<le> 57)"

definition isdigit_char :: "char \<Rightarrow> bool" where
  "isdigit_char c =
     (let n = (of_char c :: nat) in (48 \<le> n \<and> n \<le> 57) \<or> n = 178 \<or> n = 179 \<or> n = 185)"

definition isalpha :: "char \<Rightarrow> bool" where
  "isalpha c =
     (let n = (of_char c :: nat)
      in (65 \<le> n \<and> n \<le> 90) \<or> (97 \<le> n \<and> n \<le> 122) \<or> n = 170 \<or> n = 181 \<or> n = 186 \<or>
         (192 \<le> n \<and> n \<le> 214) \<or> (216 \<le> n \<and> n \<le> 246) \<or> (248 \<le> n \<and> n \<le> 255))"

definition isword :: "char \<Rightarrow> bool" where
  "isword c =
     (let n = (of_char c :: nat)
      in isalpha c \<or> isdigit_char c \<or> (188 \<le> n \<and> n \<le> 190) \<or> n = 95)"

text \<open>\<^verbatim>\<open>str.lower\<close>, one character at a time.\<close>

definition lower_char :: "char \<Rightarrow> char" where
  "lower_char c =
     (let n = (of_char c :: nat)
      in if (65 \<le> n \<and> n \<le> 90) \<or> (192 \<le> n \<and> n \<le> 214) \<or> (216 \<le> n \<and> n \<le> 222)
         then char_of (n + 32) else c)"

definition lower :: "string \<Rightarrow> string" where
  "lower s = map lower_char s"

definition strip :: "string \<Rightarrow> string" where
  "strip s = rev (dropWhile isspace (rev (dropWhile isspace s)))"

definition isdigit :: "string \<Rightarrow> bool" where
  "isdigit s = (s \<noteq> [] \<and> list_all isdigit_char s)"

text \<open>\<^verbatim>\<open>s.split()\<close>: the maximal runs of characters that are not white space.\<close>

fun split_loop :: "string \<Rightarrow> string \<Rightarrow> string list" where
  "split_loop w [] = (if w = [] then [] else [w])"
| "split_loop w (c # cs) =
     (if isspace c then (if w = [] then split_loop [] cs else w # split_loop [] cs)
      else split_loop (w @ [c]) cs)"

definition split :: "string \<Rightarrow> string list" where
  "split s = split_loop [] s"

text \<open>\<^verbatim>\<open>' '.join(ws)\<close>\<close>

fun join_space :: "string list \<Rightarrow> string" where
  "join_space [] = []"
| "join_space [w] = w"
| "join_space (w # ws) = w @ CHR '' '' # join_space ws"

text \<open>\<^verbatim>\<open>needle in haystack\<close> and \<^verbatim>\<open>haystack.startswith(needle)\<close>\<close>

definition startswith :: "string \<Rightarrow> string \<Rightarrow> bool" where
  "startswith haystack needle = (take (length needle) haystack = needle)"

fun contains :: "string \<Rightarrow> string \<Rightarrow> bool" where
  "contains needle [] = (needle = [])"
| "contains needle (c # cs) = (startswith (c # cs) needle \<or> contains needle cs)"

section \<open>Regular expressions\<close>

text \<open>
  The patterns of \<^verbatim>\<open>clean_episode_title\<close> are sequences of pieces: an anchor
  (\<^verbatim>\<open>^\<close>, \<^verbatim>\<open>$\<close>, \<^verbatim>\<open>\b\<close>) or a set of characters with a quantifier. A set is a list
  of alternatives: a literal character, \<^verbatim>\<open>\s\<close>, \<^verbatim>\<open>\d\<close> or the dot. All patterns are
  compiled with \<^verbatim>\<open>re.IGNORECASE\<close>, so a literal matches a character with the same
  lower case. The dot matches everything but the newline.
\<close>

datatype atom = Lit char | Space | Digit | Dot

datatype quant = Once | Optional | Many0 | Many1 | Lazy0 | Exactly nat

datatype piece = Match "atom list" quant | Bol | Eol | Wordb

type_synonym pattern = "piece list"

fun atom_accepts :: "atom \<Rightarrow> char \<Rightarrow> bool" where
  "atom_accepts (Lit a) c = (lower_char c = lower_char a)"
| "atom_accepts Space c = isspace c"
| "atom_accepts Digit c = isdecimal c"
| "atom_accepts Dot c = (c \<noteq> char_of (10 :: nat))"

definition accepts :: "atom list \<Rightarrow> char \<Rightarrow> bool" where
  "accepts cls c = list_ex (\<lambda>a. atom_accepts a c) cls"

definition lit :: "string \<Rightarrow> pattern" where
  "lit s = map (\<lambda>c. Match [Lit c] Once) s"

text \<open>
  A position in the subject is the character before it (\<open>None\<close> at the start of the
  string) and the text after it. \<open>match_here\<close> is the backtracking matcher at one
  position: it returns the position after the first match in the order in which Python's
  matcher tries them (a greedy quantifier takes as many characters as it can and gives
  them back one at a time, a lazy one takes as few as it can), or \<open>None\<close>.
\<close>

fun match_here :: "pattern \<Rightarrow> char option \<Rightarrow> string \<Rightarrow> (char option \<times> string) option" where
  "match_here [] p s = Some (p, s)"
| "match_here (Bol # ps) p s = (if p = None then match_here ps p s else None)"
| "match_here (Eol # ps) p s =
     (if s = [] \<or> s = [char_of (10 :: nat)] then match_here ps p s else None)"
| "match_here (Wordb # ps) p s =
     (if (case p of None \<Rightarrow> False | Some c \<Rightarrow> isword c) \<noteq>
         (case s of [] \<Rightarrow> False | c # _ \<Rightarrow> isword c)
      then match_here ps p s else None)"
| "match_here (Match cls Once # ps) p s =
     (case s of
        [] \<Rightarrow> None
      | c # cs \<Rightarrow> if accepts cls c then match_here ps (Some c) cs else None)"
| "match_here (Match cls Optional # ps) p s =
     (case (case s of
              [] \<Rightarrow> None
            | c # cs \<Rightarrow> if accepts cls c then match_here ps (Some c) cs else None) of
        Some r \<Rightarrow> Some r
      | None \<Rightarrow> match_here ps p s)"
| "match_here (Match cls Many0 # ps) p s =
     (case (case s of
              [] \<Rightarrow> None
            | c # cs \<Rightarrow>
                if accepts cls c then match_here (Match cls Many0 # ps) (Some c) cs else None) of
        Some r \<Rightarrow> Some r
      | None \<Rightarrow> match_here ps p s)"
| "match_here (Match cls Many1 # ps) p s =
     (case s of
        [] \<Rightarrow> None
      | c # cs \<Rightarrow> if accepts cls c then match_here (Match cls Many0 # ps) (Some c) cs else None)"
| "match_here (Match cls Lazy0 # ps) p s =
     (case match_here ps p s of
        Some r \<Rightarrow> Some r
      | None \<Rightarrow>
          (case s of
             [] \<Rightarrow> None
           | c # cs \<Rightarrow>
               if accepts cls c then match_here (Match cls Lazy0 # ps) (Some c) cs else None))"
| "match_here (Match cls (Exactly 0) # ps) p s = match_here ps p s"
| "match_here (Match cls (Exactly (Suc n)) # ps) p s =
     (case s of
        [] \<Rightarrow> None
      | c # cs \<Rightarrow>
          if accepts cls c then match_here (Match cls (Exactly n) # ps) (Some c) cs else None)"

text \<open>
  \<^verbatim>\<open>re.sub(pattern, repl, s)\<close> for a replacement without group references: the
  leftmost match is replaced and the scan goes on behind it; where nothing matches, one
  character is copied. After a match that took no character the next character is copied,
  as Python does.
\<close>

function re_sub_from :: "pattern \<Rightarrow> string \<Rightarrow> char option \<Rightarrow> string \<Rightarrow> string" where
  "re_sub_from pat repl p s =
     (case match_here pat p s of
        None \<Rightarrow> (case s of [] \<Rightarrow> [] | c # cs \<Rightarrow> c # re_sub_from pat repl (Some c) cs)
      | Some (p', s') \<Rightarrow>
          if length s' < length s then repl @ re_sub_from pat repl p' s'
          else (case s of [] \<Rightarrow> repl | c # cs \<Rightarrow> repl @ c # re_sub_from pat repl (Some c) cs))"
  by pat_completeness auto
termination
  by (relation "measure (\<lambda>(pat, repl, p, s). length s)") auto

declare re_sub_from.simps [simp del]

definition re_sub :: "pattern \<Rightarrow> string \<Rightarrow> string \<Rightarrow> string" where
  "re_sub pat repl s = re_sub_from pat repl None s"

section \<open>Title cleaning\<close>

text \<open>
  \<^verbatim>\<open>clean_episode_title\<close>. The nine entries of \<^verbatim>\<open>patterns_to_remove\<close>, in the order
  of the source:
  \<^verbatim>\<open>^Episode\s+\d+\s*[-:]?\s*\<close>, \<^verbatim>\<open>^EP\s*\d+\s*[-:]?\s*\<close>, \<^verbatim>\<open>^E\d+\s*[-:]?\s*\<close>,
  \<^verbatim>\<open>Watch\s+Online.*$\<close>, \<^verbatim>\<open>\bBD\b\<close>, \<^verbatim>\<open>\d{2}:\d{2}:\d{2}\<close>, \<^verbatim>\<open>\b\d+k\b\<close>,
  \<^verbatim>\<open>\[.*?\]\<close> and \<^verbatim>\<open>\(.*?\)\<close>; then \<^verbatim>\<open>[-\s]+\<close> is replaced by one space.
\<close>

definition marker_tail :: pattern where
  "marker_tail =
     [Match [Digit] Many1, Match [Space] Many0,
      Match [Lit (CHR ''-''), Lit (CHR '':'')] Optional, Match [Space] Many0]"

definition patterns_to_remove :: "pattern list" where
  "patterns_to_remove =
     [Bol # lit ''Episode'' @ Match [Space] Many1 # marker_tail,
      Bol # lit ''EP'' @ Match [Space] Many0 # marker_tail,
      Bol # lit ''E'' @ marker_tail,
      lit ''Watch'' @ Match [Space] Many1 # lit ''Online'' @ [Match [Dot] Many0, Eol],
      Wordb # lit ''BD'' @ [Wordb],
      [Match [Digit] (Exactly 2), Match [Lit (CHR '':'')] Once,
       Match [Digit] (Exactly 2), Match [Lit (CHR '':'')] Once,
       Match [Digit] (Exactly 2)],
      [Wordb, Match [Digit] Many1, Match [Lit (CHR ''k'')] Once, Wordb],
      [Match [Lit (CHR ''['')] Once, Match [Dot] Lazy0, Match [Lit (CHR '']'')] Once],
      [Match [Lit (CHR ''('')] Once, Match [Dot] Lazy0, Match [Lit (CHR '')'')] Once]]"

definition hyphens_and_spaces :: pattern where
  "hyphens_and_spaces = [Match [Lit (CHR ''-''), Space] Many1]"

text \<open>
  \<open>stripped_title\<close> is the value of \<^verbatim>\<open>title\<close> when the last \<^verbatim>\<open>if\<close> of the function
  is reached: white space normalized, the nine patterns removed in turn, hyphens and
  white space collapsed, and the ends stripped.
\<close>

definition stripped_title :: "string \<Rightarrow> string" where
  "stripped_title title0 =
     (let title1 = join_space (split title0);
          title2 = foldl (\<lambda>t pat. re_sub pat [] t) title1 patterns_to_remove
      in strip (re_sub hyphens_and_spaces '' '' title2))"

definition clean_episode_title :: "string \<Rightarrow> string" where
  "clean_episode_title title0 =
     (if title0 = [] then ''Episode''
      else
        (let title3 = stripped_title title0
         in if title3 = [] \<or> isdigit title3 \<or> length title3 < 2 then ''Episode'' else title3))"

section \<open>Search\<close>

text \<open>
  \<^verbatim>\<open>normalize_text\<close>, \<^verbatim>\<open>similarity_score\<close> and \<^verbatim>\<open>flexible_search\<close>. A search result
  is the anime dictionary with the two keys \<^verbatim>\<open>priority\<close> and \<^verbatim>\<open>match_type\<close> added.
  The priority is a Python \<^verbatim>\<open>float\<close> or the integer 100: the similarity is a
  double, and its multiples and the sums are computed in the arithmetic of the doubles.
\<close>

definition normalize_text :: "pylib \<Rightarrow> string \<Rightarrow> string" where
  "normalize_text L text = (if text = [] then [] else strip (nfkd_ascii L (lower text)))"

definition similarity_score :: "pylib \<Rightarrow> string \<Rightarrow> string \<Rightarrow> rat" where
  "similarity_score L a b = seq_ratio L (lower a) (lower b)"

datatype match_type = Exact | Starts_with | Contains | Similar

record search_result =
  entry :: anime
  priority :: rat
  match_type :: match_type

text \<open>The body of the loop over \<^verbatim>\<open>self.all_anime\<close>: the result appended, if any.\<close>

definition score_anime :: "pylib \<Rightarrow> string \<Rightarrow> anime \<Rightarrow> search_result option" where
  "score_anime L query a =
     (let normalized_query = normalize_text L query;
          title1 = (case a_title a of None \<Rightarrow> [] | Some t \<Rightarrow> t);
          normalized_title = normalize_text L title1;
          exact_match = (normalized_query = normalized_title);
          starts_with = startswith normalized_title normalized_query;
          contains1 = contains normalized_query normalized_title;
          similarity = similarity_score L query title1;
          priority1 = (if exact_match then 100
                       else if starts_with then float_add 80 (float_mul similarity 10)
                       else if contains1 then float_add 60 (float_mul similarity 10)
                       else float_mul similarity 50)
      in if priority1 > 20 \<or> contains1 \<or> starts_with
         then Some \<lparr>entry = a, priority = priority1,
                     match_type = (if exact_match then Exact
                                   else if starts_with then Starts_with
                                   else if contains1 then Contains else Similar)\<rparr>
         else None)"

text \<open>
  The sort key \<^verbatim>\<open>(-x['priority'], x['title'])\<close>: the subscript raises \<^verbatim>\<open>KeyError\<close>
  for a result whose anime has no title. Tuples and strings are compared
  lexicographically, characters by code point.
\<close>

definition result_key :: "search_result \<Rightarrow> py_error + (rat \<times> string)" where
  "result_key x =
     (case a_title (entry x) of None \<Rightarrow> Inl KeyError | Some t \<Rightarrow> Inr (- priority x, t))"

definition flexible_search ::
  "pylib \<Rightarrow> anime list \<Rightarrow> string \<Rightarrow> int \<Rightarrow> py_error + search_result list" where
  "flexible_search L all_anime query limit =
     (if query = [] \<or> all_anime = [] then Inr []
      else
        (let results = List.map_filter (score_anime L query) all_anime
         in case list_sort result_key results of
              Inl e \<Rightarrow> Inl e
            | Inr sorted_results \<Rightarrow> Inr (py_slice sorted_results 0 limit)))"

section \<open>Episode lists from the index\<close>

text \<open>
  \<^verbatim>\<open>AnimePaheBackend.get_episodes\<close> with \<^verbatim>\<open>EPISODES_PER_PAGE = 50\<close>. The sort key
  \<^verbatim>\<open>int(x.get('number', 0))\<close> reads a key that \<open>format_episode\<close> always sets, so the
  default is never used; only \<^verbatim>\<open>ValueError\<close> is caught around the sort.
\<close>

record episodes_page =
  page_title :: string
  page_episodes :: "episode list"
  total_episodes :: nat
  has_next_page :: bool
  current_page :: int
  next_page :: "int option"

definition EPISODES_PER_PAGE :: int where
  "EPISODES_PER_PAGE = 50"

definition format_episode :: "index_episode \<Rightarrow> episode" where
  "format_episode ep =
     \<lparr>number = (case ix_number ep of None \<Rightarrow> PNone | Some v \<Rightarrow> v),
      title = clean_episode_title (case ix_title ep of None \<Rightarrow> [] | Some t \<Rightarrow> t),
      url = ix_url ep,
      session = episode_id ep\<rparr>"

definition get_episodes ::
  "pylib \<Rightarrow> anime list \<Rightarrow> string \<Rightarrow> int \<Rightarrow> py_error + episodes_page" where
  "get_episodes L all_anime anime_id page =
     (case get_anime_by_id all_anime anime_id of
        None \<Rightarrow>
          Inr \<lparr>page_title = ''Unknown Anime'', page_episodes = [], total_episodes = 0,
               has_next_page = False, current_page = page, next_page = None\<rparr>
      | Some anime_data \<Rightarrow>
          (let all_formatted_episodes =
                 map format_episode (case a_episodes anime_data of None \<Rightarrow> [] | Some eps \<Rightarrow> eps)
           in case (case list_sort (\<lambda>x. py_int L (number x)) all_formatted_episodes of
                      Inl ValueError \<Rightarrow> Inr all_formatted_episodes
                    | Inl e \<Rightarrow> Inl e
                    | Inr sorted_episodes \<Rightarrow> Inr sorted_episodes) of
                Inl e \<Rightarrow> Inl e
              | Inr episodes \<Rightarrow>
                  (let total = length episodes;
                       start_index = (page - 1) * EPISODES_PER_PAGE;
                       end_index = page * EPISODES_PER_PAGE;
                       paginated_episodes = py_slice episodes start_index end_index;
                       has_next = (end_index < int total)
                   in Inr \<lparr>page_title = (case a_title anime_data of
                                            None \<Rightarrow> ''Unknown Title'' | Some t \<Rightarrow> t),
                           page_episodes = paginated_episodes,
                           total_episodes = total,
                           has_next_page = has_next,
                           current_page = page,
                           next_page = (if has_next then Some (page + 1) else None)\<rparr>)))"

section \<open>The cache\<close>

text \<open>
  Times are integers, in microseconds. A time stamp is stored as the text that
  \<^verbatim>\<open>datetime.isoformat\<close> wrote; the model keeps what \<^verbatim>\<open>datetime.fromisoformat\<close> makes
  of the stored text: it raises (\<open>Unparsed\<close>), or returns a datetime without a time zone
  (\<open>Naive\<close>) or one with a time zone (\<open>Aware\<close>). The text of \<^verbatim>\<open>datetime.now().isoformat()\<close>
  reads back as the naive datetime that was written.

  The cache document has the five top-level keys of \<^verbatim>\<open>get_default_cache\<close>. The items of
  the two listings are of no concern to the cache and are type parameters.
\<close>

datatype stamp = Unparsed | Naive int | Aware int

record iframe_entry =
  entry_iframe_url :: "string option"
  entry_timestamp :: stamp
  entry_success :: bool

record 'i listing =
  listing_items :: "'i list option"
  listing_timestamp :: "stamp option"
  listing_count :: "nat option"

record cache_metadata =
  created_at :: stamp
  last_updated :: stamp

record ('e, 'p) cache_doc =
  anime_episodes :: "string \<rightharpoonup> episodes_page \<times> stamp"
  episode_iframes :: "string \<rightharpoonup> (string \<rightharpoonup> iframe_entry)"
  currently_airing_episodes :: "'e listing"
  popular_anime :: "'p listing"
  metadata :: cache_metadata

text \<open>\<^verbatim>\<open>get_default_cache\<close>, with the time of the call as a parameter.\<close>

definition get_default_cache :: "int \<Rightarrow> ('e, 'p) cache_doc" where
  "get_default_cache now =
     \<lparr>anime_episodes = Map.empty,
      episode_iframes = Map.empty,
      currently_airing_episodes =
        \<lparr>listing_items = Some [], listing_timestamp = Some (Naive now), listing_count = Some 0\<rparr>,
      popular_anime =
        \<lparr>listing_items = Some [], listing_timestamp = Some (Naive now), listing_count = Some 0\<rparr>,
      metadata = \<lparr>created_at = Naive now, last_updated = Naive now\<rparr>\<rparr>"

text \<open>
  A \<^verbatim>\<open>CacheManager\<close>: the document in memory, the document in the file
  \<^verbatim>\<open>data.json\<close> (if the file exists), whether the file can be written, and the last
  modification time seen.
\<close>

record ('e, 'p) cache_manager =
  cache :: "('e, 'p) cache_doc"
  cache_file :: "('e, 'p) cache_doc option"
  file_writable :: bool
  last_mtime :: int

text \<open>
  \<^verbatim>\<open>save_cache\<close>: the assignment to \<^verbatim>\<open>last_updated\<close> comes first; a failure to write
  the file is logged and swallowed.
\<close>

definition save_cache :: "('e, 'p) cache_manager \<Rightarrow> int \<Rightarrow> ('e, 'p) cache_manager" where
  "save_cache cm now =
     (let c = (cache cm)\<lparr>metadata := (metadata (cache cm))\<lparr>last_updated := Naive now\<rparr>\<rparr>
      in if file_writable cm then cm\<lparr>cache := c, cache_file := Some c, last_mtime := now\<rparr>
         else cm\<lparr>cache := c\<rparr>)"

definition timedelta_hours :: "int \<Rightarrow> int" where
  "timedelta_hours h = h * 3600 * 1000000"

text \<open>
  \<^verbatim>\<open>datetime.now() - cache_time\<close> after \<^verbatim>\<open>datetime.fromisoformat\<close>: subtracting a
  datetime with a time zone from one without raises \<^verbatim>\<open>TypeError\<close>.
\<close>

definition cache_age :: "int \<Rightarrow> stamp \<Rightarrow> py_error + int" where
  "cache_age now st =
     (case st of
        Unparsed \<Rightarrow> Inl ValueError
      | Naive cache_time \<Rightarrow> Inr (now - cache_time)
      | Aware cache_time \<Rightarrow> Inl TypeError)"

text \<open>
  The two listing getters of \<^verbatim>\<open>CacheManager\<close>. \<^verbatim>\<open>cached_data and 'timestamp' in
  cached_data\<close> holds when the key is there; every exception of the \<^verbatim>\<open>try\<close> block ends
  in \<^verbatim>\<open>return None\<close>.
\<close>

definition get_listing :: "'i listing \<Rightarrow> int \<Rightarrow> 'i list option" where
  "get_listing cached_data now =
     (case listing_timestamp cached_data of
        None \<Rightarrow> None
      | Some st \<Rightarrow>
          (case cache_age now st of
             Inl e \<Rightarrow> None
           | Inr age \<Rightarrow>
               if age < timedelta_hours 24
               then Some (case listing_items cached_data of None \<Rightarrow> [] | Some xs \<Rightarrow> xs)
               else None))"

definition cache_get_currently_airing_episodes ::
  "('e, 'p) cache_manager \<Rightarrow> int \<Rightarrow> 'e list option" where
  "cache_get_currently_airing_episodes cm now =
     get_listing (currently_airing_episodes (cache cm)) now"

definition cache_get_popular_anime :: "('e, 'p) cache_manager \<Rightarrow> int \<Rightarrow> 'p list option" where
  "cache_get_popular_anime cm now = get_listing (popular_anime (cache cm)) now"

definition cache_set_currently_airing_episodes ::
  "('e, 'p) cache_manager \<Rightarrow> int \<Rightarrow> 'e list \<Rightarrow> ('e, 'p) cache_manager" where
  "cache_set_currently_airing_episodes cm now episodes_list =
     save_cache
       (cm\<lparr>cache := (cache cm)\<lparr>currently_airing_episodes :=
              \<lparr>listing_items = Some episodes_list, listing_timestamp = Some (Naive now),
               listing_count = Some (length episodes_list)\<rparr>\<rparr>\<rparr>) now"

definition cache_set_popular_anime ::
  "('e, 'p) cache_manager \<Rightarrow> int \<Rightarrow> 'p list \<Rightarrow> ('e, 'p) cache_manager" where
  "cache_set_popular_anime cm now anime_list =
     save_cache
       (cm\<lparr>cache := (cache cm)\<lparr>popular_anime :=
              \<lparr>listing_items = Some anime_list, listing_timestamp = Some (Naive now),
               listing_count = Some (length anime_list)\<rparr>\<rparr>\<rparr>) now"

text \<open>The iframe cache: a dictionary per anime id, keyed by episode session.\<close>

definition cache_get_episode_iframe ::
  "('e, 'p) cache_manager \<Rightarrow> string \<Rightarrow> string \<Rightarrow> iframe_entry option" where
  "cache_get_episode_iframe cm anime_id episode_session =
     (case episode_iframes (cache cm) anime_id of
        None \<Rightarrow> None
      | Some anime_cache \<Rightarrow> anime_cache episode_session)"

record iframe_data =
  data_iframe_url :: "string option"
  success :: bool
  error :: "string option"

definition cache_set_episode_iframe ::
  "('e, 'p) cache_manager \<Rightarrow> int \<Rightarrow> string \<Rightarrow> string \<Rightarrow> iframe_data \<Rightarrow> ('e, 'p) cache_manager" where
  "cache_set_episode_iframe cm now anime_id episode_session data =
     (let anime_cache = (case episode_iframes (cache cm) anime_id of
                           None \<Rightarrow> Map.empty | Some m \<Rightarrow> m);
          new_entry = \<lparr>entry_iframe_url = data_iframe_url data, entry_timestamp = Naive now,
                       entry_success = success data\<rparr>
      in save_cache
           (cm\<lparr>cache := (cache cm)\<lparr>episode_iframes :=
                  (episode_iframes (cache cm))
                    (anime_id \<mapsto> anime_cache(episode_session \<mapsto> new_entry))\<rparr>\<rparr>) now)"

section \<open>Iframe resolution\<close>

text \<open>
  The browser is a collaborator. An episode page is what the code asks of it: whether
  loading (and waiting out the challenge page) raises, the title of the page, and what
  each of the four strategies \<^verbatim>\<open>_find_iframe_directly\<close>, \<^verbatim>\<open>_find_iframe_in_javascript\<close>,
  \<^verbatim>\<open>_find_dynamic_iframe\<close> and \<^verbatim>\<open>_find_iframe_after_interaction\<close> does there: it
  returns a URL or \<^verbatim>\<open>None\<close>, or it raises. The browser maps a URL to the page it
  serves and counts the browsing contexts opened.
\<close>

datatype 'a attempt = Returns 'a | Raises string

record episode_page =
  load_raises :: "string option"
  actual_title :: string
  find_iframe_directly :: "string option attempt"
  find_iframe_in_javascript :: "string option attempt"
  find_dynamic_iframe :: "string option attempt"
  find_iframe_after_interaction :: "string option attempt"

record browser =
  site :: "string \<Rightarrow> episode_page"
  contexts_opened :: nat

record ('e, 'p) backend =
  anime_index :: "anime list"
  backend_cache :: "('e, 'p) cache_manager"
  backend_browser :: browser

definition base_url :: string where
  "base_url = ''https://animepahe.si''"

definition error_data :: "string \<Rightarrow> iframe_data" where
  "error_data msg = \<lparr>data_iframe_url = None, success = False, error = Some msg\<rparr>"

definition found_data :: "string \<Rightarrow> iframe_data" where
  "found_data u = \<lparr>data_iframe_url = Some u, success = True, error = None\<rparr>"

text \<open>
  The strategies in their fixed order: the first URL that is not empty wins, a raise
  ends the chain in the handler of the \<^verbatim>\<open>try\<close> block.
\<close>

fun extraction_chain :: "string option attempt list \<Rightarrow> iframe_data" where
  "extraction_chain [] = error_data ''No iframe found on page''"
| "extraction_chain (Raises msg # rest) = error_data msg"
| "extraction_chain (Returns None # rest) = extraction_chain rest"
| "extraction_chain (Returns (Some u) # rest) =
     (if u \<noteq> [] then found_data u else extraction_chain rest)"

text \<open>The \<^verbatim>\<open>try\<close> block of \<^verbatim>\<open>_scrape_episode_iframe\<close> on a page: what is cached and returned.\<close>

definition extract_iframe :: "episode_page \<Rightarrow> string \<Rightarrow> iframe_data" where
  "extract_iframe pg episode_url =
     (case load_raises pg of
        Some msg \<Rightarrow> error_data msg
      | None \<Rightarrow>
          if contains ''404'' (actual_title pg) \<or> contains ''Not Found'' (actual_title pg)
          then error_data (''Episode page not found (404): '' @ episode_url)
          else extraction_chain
                 [find_iframe_directly pg, find_iframe_in_javascript pg,
                  find_dynamic_iframe pg, find_iframe_after_interaction pg])"

definition scrape_episode_iframe ::
  "('e, 'p) backend \<Rightarrow> int \<Rightarrow> string \<Rightarrow> string \<Rightarrow> iframe_data \<times> ('e, 'p) backend" where
  "scrape_episode_iframe be now anime_id episode_session =
     (let cached_iframe = cache_get_episode_iframe (backend_cache be) anime_id episode_session
      in if (case cached_iframe of None \<Rightarrow> False | Some e \<Rightarrow> entry_success e)
         then (\<lparr>data_iframe_url = (case cached_iframe of
                                      None \<Rightarrow> None | Some e \<Rightarrow> entry_iframe_url e),
                 success = True, error = None\<rparr>, be)
         else
           (let episode_url = base_url @ ''/play/'' @ anime_id @ ''/'' @ episode_session;
                br = backend_browser be;
                data = extract_iframe (site br episode_url) episode_url
            in (data,
                be\<lparr>backend_browser := br\<lparr>contexts_opened := Suc (contexts_opened br)\<rparr>,
                   backend_cache :=
                     cache_set_episode_iframe (backend_cache be) now anime_id episode_session
                       data\<rparr>)))"

definition get_episode_iframe ::
  "('e, 'p) backend \<Rightarrow> int \<Rightarrow> string \<Rightarrow> string \<Rightarrow> iframe_data \<times> ('e, 'p) backend" where
  "get_episode_iframe be now anime_id episode_session =
     (case get_episode (anime_index be) anime_id episode_session of
        None \<Rightarrow> scrape_episode_iframe be now anime_id episode_session
      | Some episode_data \<Rightarrow>
          (case iframe_url episode_data of
             None \<Rightarrow> scrape_episode_iframe be now anime_id episode_session
           | Some u \<Rightarrow>
               if u \<noteq> [] then (\<lparr>data_iframe_url = Some u, success = True, error = None\<rparr>, be)
               else scrape_episode_iframe be now anime_id episode_session))"

section \<open>The next episode in the words of the specification\<close>




section \<open>The ranking rule in the words of the specification\<close>

text \<open>
  The specification's sections 4.3 (3) and 4.3 (4), for a query and the title of a
  candidate: the priority score, and the condition under which a candidate is kept. The
  title of a candidate is the value under its \<^verbatim>\<open>title\<close> key, or the empty string. The
  similarity is a float, and so are its multiples and the sums.
\<close>

definition title_of :: "anime \<Rightarrow> string" where
  "title_of a = (case a_title a of None \<Rightarrow> [] | Some t \<Rightarrow> t)"

definition spec_priority :: "pylib \<Rightarrow> string \<Rightarrow> string \<Rightarrow> rat" where
  "spec_priority L query t =
     (if normalize_text L query = normalize_text L t then 100
      else if startswith (normalize_text L t) (normalize_text L query)
        then float_add 80 (float_mul (seq_ratio L (lower query) (lower t)) 10)
      else if contains (normalize_text L query) (normalize_text L t)
        then float_add 60 (float_mul (seq_ratio L (lower query) (lower t)) 10)
      else float_mul (seq_ratio L (lower query) (lower t)) 50)"

definition spec_keep :: "pylib \<Rightarrow> string \<Rightarrow> string \<Rightarrow> bool" where
  "spec_keep L query t =
     (spec_priority L query t > 20 \<or>
      contains (normalize_text L query) (normalize_text L t) \<or>
      startswith (normalize_text L t) (normalize_text L query))"

text \<open>
  The classification of a candidate, the search result that the specification describes
  for a candidate that is kept, and the key of section 4.3 (5) by which the results are
  ranked: highest priority first, ties broken by the title.
\<close>

definition spec_match_type :: "pylib \<Rightarrow> string \<Rightarrow> string \<Rightarrow> match_type" where
  "spec_match_type L query t =
     (if normalize_text L query = normalize_text L t then Exact
      else if startswith (normalize_text L t) (normalize_text L query) then Starts_with
      else if contains (normalize_text L query) (normalize_text L t) then Contains
      else Similar)"

definition spec_result :: "pylib \<Rightarrow> string \<Rightarrow> anime \<Rightarrow> search_result" where
  "spec_result L query a =
     \<lparr>entry = a, priority = spec_priority L query (title_of a),
      match_type = spec_match_type L query (title_of a)\<rparr>"

definition rank_key :: "search_result \<Rightarrow> rat \<times> string" where
  "rank_key r = (- priority r, title_of (entry r))"

section \<open>A library for the examples\<close>

text \<open>
  The examples below run the model on text of the ASCII range, with these stand-ins for
  the library. On ASCII text the NFKD form is the text itself and nothing is dropped by
  the encoding. \<open>digits_value\<close> reads a string of decimal digits, as \<^verbatim>\<open>int\<close> and
  \<^verbatim>\<open>float\<close> do; the examples pass it such strings and the word \<^verbatim>\<open>special\<close>, on which
  both raise \<^verbatim>\<open>ValueError\<close>. \<^verbatim>\<open>SequenceMatcher.ratio()\<close> is 1 on two equal strings
  and 0 on two strings without a common character; the examples compare such pairs only.
  No example sorts a list with a \<^verbatim>\<open>nan\<close> key, and \<open>sort_with_nan\<close> stands for nothing
  there.
\<close>

definition digits_value :: "string \<Rightarrow> nat option" where
  "digits_value s =
     (if s \<noteq> [] \<and> list_all isdecimal s
      then Some (foldl (\<lambda>n c. 10 * n + (of_char c - 48)) 0 s) else None)"

definition example_lib :: pylib where
  "example_lib =
     \<lparr>nfkd_ascii = filter (\<lambda>c. (of_char c :: nat) < 128),
      seq_ratio = (\<lambda>a b. if a = b then 1 else 0),
      float_of_str = (\<lambda>s. map_option (\<lambda>n. Float (round_double (of_nat n))) (digits_value s)),
      int_of_str = (\<lambda>s. map_option int (digits_value s)),
      sort_with_nan = (\<lambda>ks. [0..<length ks])\<rparr>"

text \<open>The stand-in library with one given similarity ratio for every pair of strings.\<close>

definition ratio_lib :: "rat \<Rightarrow> pylib" where
  "ratio_lib r = example_lib\<lparr>seq_ratio := (\<lambda>a b. r)\<rparr>"

text \<open>
  Index data for the examples: an episode with a number and a session id and nothing
  else, a title entry, and the anime \<^verbatim>\<open>a1\<close> with a given episode list.
\<close>

definition numbered :: "pyval \<Rightarrow> string \<Rightarrow> index_episode" where
  "numbered n sid =
     \<lparr>ix_number = Some n, ix_title = None, ix_url = None, episode_id = Some sid,
      iframe_url = None\<rparr>"

definition anime_a1 :: "index_episode list \<Rightarrow> anime" where
  "anime_a1 eps = \<lparr>a_id = Some ''a1'', a_title = Some ''Show'', a_episodes = Some eps\<rparr>"

definition titled :: "string \<Rightarrow> string \<Rightarrow> anime" where
  "titled aid t = \<lparr>a_id = Some aid, a_title = Some t, a_episodes = None\<rparr>"

text \<open>
  Cache and browser data for the examples: the cache of a process started at time 0 with
  no cache file, that cache with two listings of given time stamps (a stamp \<open>None\<close>
  is a listing without the key \<^verbatim>\<open>timestamp\<close>), a page on which no strategy finds an
  iframe, a page on which the first
  strategy finds one, and a backend whose index knows the iframe of the session \<^verbatim>\<open>s1\<close>
  of \<^verbatim>\<open>a1\<close> but not that of \<^verbatim>\<open>s2\<close>, and whose browser serves the given page
  under every URL.
\<close>

definition example_cache_manager :: "(string, string) cache_manager" where
  "example_cache_manager =
     \<lparr>cache = get_default_cache 0, cache_file = None, file_writable = True, last_mtime = 0\<rparr>"

definition cache_stamped ::
  "stamp option \<Rightarrow> stamp option \<Rightarrow> (string, string) cache_manager" where
  "cache_stamped airing_stamp popular_stamp =
     example_cache_manager
       \<lparr>cache := (get_default_cache 0)
          \<lparr>currently_airing_episodes :=
             \<lparr>listing_items = Some [''ep1'', ''ep2''], listing_timestamp = airing_stamp,
              listing_count = Some 2\<rparr>,
           popular_anime :=
             \<lparr>listing_items = Some [''show''], listing_timestamp = popular_stamp,
              listing_count = Some 1\<rparr>\<rparr>\<rparr>"

definition page_without_iframe :: episode_page where
  "page_without_iframe =
     \<lparr>load_raises = None, actual_title = ''Show - Episode 2'',
      find_iframe_directly = Returns None, find_iframe_in_javascript = Returns None,
      find_dynamic_iframe = Returns None, find_iframe_after_interaction = Returns None\<rparr>"

definition page_with_iframe :: episode_page where
  "page_with_iframe =
     \<lparr>load_raises = None, actual_title = ''Show - Episode 2'',
      find_iframe_directly = Returns (Some ''https://kwik.si/e/abc''),
      find_iframe_in_javascript = Returns None,
      find_dynamic_iframe = Returns None, find_iframe_after_interaction = Returns None\<rparr>"

definition example_backend :: "episode_page \<Rightarrow> (string, string) backend" where
  "example_backend pg =
     \<lparr>anime_index =
        [anime_a1 [(numbered (PNum 1) ''s1'')\<lparr>iframe_url := Some ''https://kwik.si/e/s1''\<rparr>,
                   numbered (PNum 2) ''s2'']],
      backend_cache = example_cache_manager,
      backend_browser = \<lparr>site = (\<lambda>u. pg), contexts_opened = 0\<rparr>\<rparr>"

text \<open>
  Episode lists for the pagination example: the index episodes with the given numbers
  (the session id of number \<open>n\<close> is \<open>n\<close> times the letter s, no title), and the list
  that \<open>format_episode\<close> makes of them.
\<close>

definition episodes_numbered :: "nat list \<Rightarrow> index_episode list" where
  "episodes_numbered ns = map (\<lambda>n. numbered (PNum (of_nat n)) (replicate n (CHR ''s''))) ns"

definition formatted_numbered :: "nat list \<Rightarrow> episode list" where
  "formatted_numbered ns =
     map (\<lambda>n. \<lparr>number = PNum (of_nat n), title = ''Episode'', url = None,
               session = Some (replicate n (CHR ''s''))\<rparr>) ns"

text \<open>
  Catalogues for the search examples: twenty-one entries with the title \<^verbatim>\<open>Naruto\<close> and
  the ids \<^verbatim>\<open>01\<close> to \<^verbatim>\<open>21\<close>, and the search results of entries that match exactly.
\<close>

definition twenty_one_naruto :: "anime list" where
  "twenty_one_naruto =
     [titled ''01'' ''Naruto'', titled ''02'' ''Naruto'', titled ''03'' ''Naruto'',
      titled ''04'' ''Naruto'', titled ''05'' ''Naruto'', titled ''06'' ''Naruto'',
      titled ''07'' ''Naruto'', titled ''08'' ''Naruto'', titled ''09'' ''Naruto'',
      titled ''10'' ''Naruto'', titled ''11'' ''Naruto'', titled ''12'' ''Naruto'',
      titled ''13'' ''Naruto'', titled ''14'' ''Naruto'', titled ''15'' ''Naruto'',
      titled ''16'' ''Naruto'', titled ''17'' ''Naruto'', titled ''18'' ''Naruto'',
      titled ''19'' ''Naruto'', titled ''20'' ''Naruto'', titled ''21'' ''Naruto'']"

definition exact_result :: "anime \<Rightarrow> search_result" where
  "exact_result a = \<lparr>entry = a, priority = 100, match_type = Exact\<rparr>"

section \<open>Properties of episode deduplication\<close>








section \<open>Properties of rounding to a double\<close>

lemma bit_length_le:
  "n < 2 ^ k \<Longrightarrow> bit_length n \<le> k"
proof (induction k arbitrary: n)
  case 0
  then show ?case by (subst bit_length.simps) simp
next
  case (Suc k)
  show ?case
  proof (cases "n \<le> 0")
    case True
    then show ?thesis by (subst bit_length.simps) simp
  next
    case False
    have "n div 2 < 2 ^ k" using Suc.prems by simp
    then have "bit_length (n div 2) \<le> k" by (rule Suc.IH)
    then show ?thesis using False by (subst bit_length.simps) simp
  qed
qed

lemma floor_log2_less:
  assumes "x < 2 ^ k" "1 \<le> k"
  shows "floor_log2 x \<le> int k - 1"
proof (cases "1 \<le> x")
  case True
  have "\<lfloor>x\<rfloor> < 2 ^ k" using assms(1) by (simp add: floor_less_iff)
  then have "bit_length \<lfloor>x\<rfloor> \<le> k" by (rule bit_length_le)
  then show ?thesis using True by (simp add: floor_log2_def)
next
  case False
  then show ?thesis using assms(2) by (simp add: floor_log2_def)
qed

lemma round_half_even_of_int: "round_half_even (of_int z) = z"
  by (simp add: round_half_even_def)

lemma round_half_even_le:
  assumes "q \<le> of_int z"
  shows "round_half_even q \<le> z"
proof -
  have fl: "\<lfloor>q\<rfloor> \<le> z" using assms by (simp add: floor_le_iff)
  show ?thesis
  proof (cases "\<lfloor>q\<rfloor> = z")
    case True
    then have "q - of_int \<lfloor>q\<rfloor> \<le> 0" using assms by simp
    then show ?thesis using True by (simp add: round_half_even_def Let_def)
  next
    case False
    then have "\<lfloor>q\<rfloor> + 1 \<le> z" using fl by simp
    then show ?thesis using fl by (auto simp: round_half_even_def Let_def)
  qed
qed

lemma pow2_nonpos: "e \<le> 0 \<Longrightarrow> pow2 e = 1 / 2 ^ nat (- e)"
  by (cases "e = 0") (simp_all add: pow2_def)

lemma pow2_pos: "0 < pow2 e"
  by (simp add: pow2_def)

lemma round_double_le:
  assumes "x \<le> of_int n" "0 \<le> n" "n < 2 ^ 53"
  shows "round_double x \<le> of_int n"
proof (cases "x = 0")
  case True
  then show ?thesis using assms(2) by (simp add: round_double_def)
next
  case False
  define e where "e = max (floor_log2 \<bar>x\<bar> - 52) (- 1074)"
  define y where "y = of_int (round_half_even (x / pow2 e)) * pow2 e"
  have rd: "round_double x =
      (if infinity \<le> y then infinity else if y \<le> - infinity then - infinity else y)"
    using False by (simp add: round_double_def Let_def e_def y_def)
  have inf: "of_int n < infinity"
  proof -
    have "(of_int n :: rat) < of_int (2 ^ 53)" using assms(3) by (simp only: of_int_less_iff)
    also have "\<dots> \<le> infinity" by (simp add: infinity_def)
    finally show ?thesis .
  qed
  have yn: "y \<le> of_int n"
  proof (cases "x < 0")
    case True
    then have "x / pow2 e \<le> of_int 0" using pow2_pos [of e] by (simp add: divide_le_0_iff)
    then have "round_half_even (x / pow2 e) \<le> 0" by (rule round_half_even_le)
    then have "y \<le> 0"
      unfolding y_def using pow2_pos [of e] by (simp add: mult_le_0_iff)
    then show ?thesis using assms(2) by simp
  next
    case pos: False
    then have xpos: "0 < x" using False by simp
    have "\<bar>x\<bar> < 2 ^ 53"
    proof -
      have "x < of_int (2 ^ 53)" using assms(1,3)
        by (meson less_le_trans le_less_trans of_int_less_iff not_le)
      then show ?thesis using xpos by simp
    qed
    then have "floor_log2 \<bar>x\<bar> \<le> 52" using floor_log2_less [of "\<bar>x\<bar>" 53] by simp
    then have e0: "e \<le> 0" by (simp add: e_def)
    define m where "m = nat (- e)"
    have p: "pow2 e = 1 / 2 ^ m" unfolding m_def using e0 by (rule pow2_nonpos)
    have "x / pow2 e = x * 2 ^ m" by (simp add: p)
    also have "\<dots> \<le> of_int n * 2 ^ m" using assms(1) by simp
    also have "\<dots> = of_int (n * 2 ^ m)" by simp
    finally have "round_half_even (x / pow2 e) \<le> n * 2 ^ m" by (rule round_half_even_le)
    then have "(of_int (round_half_even (x / pow2 e)) :: rat) \<le> of_int (n * 2 ^ m)"
      by (simp only: of_int_le_iff)
    then have "of_int (round_half_even (x / pow2 e)) * pow2 e \<le> of_int (n * 2 ^ m) * pow2 e"
      using pow2_pos [of e] by (simp only: mult_le_cancel_right) simp
    also have "of_int (n * 2 ^ m) * pow2 e = of_int n" by (simp add: p)
    finally show ?thesis by (simp add: y_def)
  qed
  have "- infinity \<le> of_int n"
  proof -
    have "(0::rat) \<le> of_int n" using assms(2) by simp
    moreover have "- infinity \<le> 0" by (simp add: infinity_def)
    ultimately show ?thesis by linarith
  qed
  then show ?thesis using rd yn inf by auto
qed

lemma round_double_int:
  assumes "\<bar>n\<bar> < 2 ^ 53"
  shows "round_double (of_int n) = of_int n"
proof (cases "n = 0")
  case True
  then show ?thesis by (simp add: round_double_def)
next
  case False
  define x :: rat where "x = of_int n"
  define e where "e = max (floor_log2 \<bar>x\<bar> - 52) (- 1074)"
  define y where "y = of_int (round_half_even (x / pow2 e)) * pow2 e"
  have x0: "x \<noteq> 0" using False by (simp add: x_def)
  have rd: "round_double x =
      (if infinity \<le> y then infinity else if y \<le> - infinity then - infinity else y)"
    using x0 by (simp add: round_double_def Let_def e_def y_def)
  have "\<bar>x\<bar> = of_int \<bar>n\<bar>" by (simp add: x_def)
  also have "\<dots> < of_int (2 ^ 53)" using assms by (simp only: of_int_less_iff)
  finally have ax: "\<bar>x\<bar> < 2 ^ 53" by simp
  then have "floor_log2 \<bar>x\<bar> \<le> 52" using floor_log2_less [of "\<bar>x\<bar>" 53] by simp
  then have e0: "e \<le> 0" by (simp add: e_def)
  define m where "m = nat (- e)"
  have p: "pow2 e = 1 / 2 ^ m" unfolding m_def using e0 by (rule pow2_nonpos)
  have "x / pow2 e = of_int (n * 2 ^ m)" by (simp add: p x_def)
  then have "round_half_even (x / pow2 e) = n * 2 ^ m"
    by (simp only: round_half_even_of_int)
  then have yx: "y = x" by (simp add: y_def p x_def)
  have "\<bar>x\<bar> < infinity"
  proof -
    have "(2::rat) ^ 53 \<le> infinity" by (simp add: infinity_def)
    then show ?thesis using ax by linarith
  qed
  then show ?thesis using rd yx unfolding x_def by (auto simp: abs_if split: if_splits)
qed

section \<open>Properties of sorting and of the next-episode lookup\<close>

lemma sort_keys_Inr:
  "sort_keys f xs = Inr ks \<longleftrightarrow> map f xs = map Inr ks"
proof (induction xs arbitrary: ks)
  case Nil
  show ?case by auto
next
  case (Cons x xs)
  show ?case
  proof (cases "f x")
    case (Inl e)
    then show ?thesis by (cases ks) auto
  next
    case (Inr k)
    show ?thesis
    proof (cases "sort_keys f xs")
      case (Inl e)
      then have "map f xs \<noteq> map Inr ks'" for ks'
        using Cons.IH [of ks'] by auto
      then show ?thesis using Inr Inl by (cases ks) auto
    next
      case Inr2: (Inr ks0)
      then have "map f xs = map Inr ks0" using Cons.IH [of ks0] by simp
      then show ?thesis using Inr Inr2 by (cases ks) (auto simp: inj_on_def dest: map_inj_on)
    qed
  qed
qed

lemma sort_keys_Inl:
  "sort_keys f xs = Inl e \<Longrightarrow> \<exists>x \<in> set xs. f x = Inl e"
  by (induction xs) (auto split: sum.splits)

lemma insort_key_zip:
  assumes "\<forall>(k, y) \<in> set ps. k = g y"
  shows "map snd (insort_key fst (g x, x) ps) = insort_key g x (map snd ps)"
  using assms by (induction ps) auto

lemma sort_key_pairs_inv:
  "\<forall>(k, y) \<in> set ps. k = g y \<Longrightarrow> \<forall>(k, y) \<in> set (sort_key fst ps). k = g y"
  by simp

lemma sort_key_zip:
  "map snd (sort_key fst (zip (map g xs) xs)) = sort_key g xs"
proof (induction xs)
  case Nil
  show ?case by simp
next
  case (Cons x xs)
  have inv: "\<forall>(k, y) \<in> set (sort_key fst (zip (map g xs) xs)). k = g y"
    by (auto simp: set_zip)
  show ?case
    using insort_key_zip [OF inv, of x] Cons.IH by simp
qed

lemma list_sort_Inr:
  assumes "map f xs = map Inr ks"
  shows "list_sort f xs = Inr (sort_key (\<lambda>x. projr (f x)) xs)"
proof -
  have ks: "ks = map (\<lambda>x. projr (f x)) xs"
    using assms
  proof (induction xs arbitrary: ks)
    case Nil
    then show ?case by simp
  next
    case (Cons x xs)
    then show ?case by (cases ks) auto
  qed
  have "sort_keys f xs = Inr ks" using assms by (simp add: sort_keys_Inr)
  then show ?thesis
    unfolding list_sort_def using sort_key_zip [of "\<lambda>x. projr (f x)" xs] ks by simp
qed

lemma list_sort_Inl:
  "list_sort f xs = Inl e \<longleftrightarrow> sort_keys f xs = Inl e"
  unfolding list_sort_def by (auto split: sum.splits)

lemma next_episode_loop_dropWhile:
  "next_episode_loop cur eps =
     (case dropWhile (\<lambda>e. episode_id e \<noteq> Some cur) eps of
        m # n # rest \<Rightarrow> Some n
      | _ \<Rightarrow> None)"
  by (induction eps) (auto split: list.splits)


lemma list_sort_numeric:
  assumes num: "\<forall>e \<in> set eps. \<exists>r. f e = Inr r"
  shows "\<exists>ordered. list_sort f eps = Inr ordered \<and> mset ordered = mset eps \<and>
           (\<exists>ks. map f ordered = map Inr ks \<and> sorted ks) \<and>
           (\<forall>k. filter (\<lambda>e. f e = k) ordered = filter (\<lambda>e. f e = k) eps)"
proof -
  define g where "g = (\<lambda>x. projr (f x))"
  have fg: "f e = Inr (g e)" if "e \<in> set eps" for e
    using num that by (auto simp: g_def)
  then have "map f eps = map Inr (map g eps)" by simp
  then have srt: "list_sort f eps = Inr (sort_key g eps)"
    unfolding g_def by (rule list_sort_Inr)
  have m: "map f (sort_key g eps) = map Inr (map g (sort_key g eps))"
    using fg by simp
  have stable: "filter (\<lambda>e. f e = k) (sort_key g eps) = filter (\<lambda>e. f e = k) eps" for k
  proof (cases k)
    case (Inl err)
    have "filter (\<lambda>e. f e = k) (sort_key g eps) = []" "filter (\<lambda>e. f e = k) eps = []"
      using fg Inl by (auto simp: filter_empty_conv)
    then show ?thesis by simp
  next
    case (Inr r)
    have "filter (\<lambda>e. f e = k) (sort_key g eps) = filter (\<lambda>e. g e = r) (sort_key g eps)"
      using fg Inr by (intro filter_cong) auto
    also have "\<dots> = filter (\<lambda>e. g e = r) eps" by (rule sort_key_stable)
    also have "\<dots> = filter (\<lambda>e. f e = k) eps"
      using fg Inr by (intro filter_cong) auto
    finally show ?thesis .
  qed
  have "\<exists>ks. map f (sort_key g eps) = map Inr ks \<and> sorted ks"
    using m sorted_sort_key [of g eps] by blast
  then show ?thesis
    using srt stable by simp
qed

lemma list_sort_not_numeric:
  assumes "\<not> (\<forall>e \<in> set eps. \<exists>r. f e = Inr r)"
  shows "\<exists>err. list_sort f eps = Inl err"
proof (cases "list_sort f eps")
  case (Inl err)
  then show ?thesis by simp
next
  case (Inr ordered)
  then obtain ks where "sort_keys f eps = Inr ks"
    unfolding list_sort_def by (auto split: sum.splits)
  then have "map f eps = map Inr ks" by (simp add: sort_keys_Inr)
  then have "\<forall>e \<in> set eps. \<exists>r. f e = Inr r"
    by (metis (no_types, lifting) imageE image_eqI list.set_map)
  with assms show ?thesis by simp
qed



lemma sort_key_cong_set:
  assumes "\<And>x. x \<in> set xs \<Longrightarrow> f x = g x"
  shows "sort_key f xs = sort_key g xs"
proof -
  have "insort_key f x ys = insort_key g x ys" if "f x = g x" "\<forall>y \<in> set ys. f y = g y"
    for x and ys :: "'a list"
    using that by (induction ys) auto
  then show ?thesis
    using assms
  proof (induction xs)
    case Nil
    show ?case by simp
  next
    case (Cons x xs)
    then have IH: "sort_key f xs = sort_key g xs" by simp
    have "\<forall>y \<in> set (sort_key g xs). f y = g y" using Cons.prems(2) by simp
    then show ?case using Cons.prems IH by simp
  qed
qed




lemma py_float_int:
  assumes "\<bar>n\<bar> < 2 ^ 53"
  shows "py_float L (PNum (of_int n)) = Inr (Float (of_int n))"
proof -
  have "\<bar>of_int n :: rat\<bar> = of_int \<bar>n\<bar>" by simp
  also have "\<dots> < of_int (2 ^ 53)" using assms by (simp only: of_int_less_iff)
  also have "\<dots> \<le> infinity" by (simp add: infinity_def)
  finally have "\<bar>of_int n :: rat\<bar> \<noteq> infinity" by simp
  then show ?thesis
    using round_double_int [OF assms] by (simp add: py_float_def)
qed

lemma py_float_numeral:
  "\<bar>numeral k :: int\<bar> < 2 ^ 53 \<Longrightarrow> py_float L (PNum (numeral k)) = Inr (Float (numeral k))"
  using py_float_int [of "numeral k" L] by simp

lemma py_float_one: "py_float L (PNum 1) = Inr (Float 1)"
  using py_float_int [of 1 L] by simp

lemma py_float_zero: "py_float L (PNum 0) = Inr (Float 0)"
  using py_float_int [of 0 L] by simp





text \<open>
  Claim C2, at a concrete index: the anime \<^verbatim>\<open>a1\<close> is stored with its episodes in the
  order 2, 1, 3. After \<open>get_next_episode\<close> for the session \<^verbatim>\<open>s1\<close> the index holds them
  in the order 1, 2, 3: the call has changed the stored record.
\<close>

theorem get_next_episode_reorders_index:
  "snd (get_next_episode example_lib
     [anime_a1 [numbered (PNum 2) ''s2'', numbered (PNum 1) ''s1'', numbered (PNum 3) ''s3'']]
     ''a1'' ''s1'') =
     [anime_a1 [numbered (PNum 1) ''s1'', numbered (PNum 2) ''s2'', numbered (PNum 3) ''s3'']] \<and>
   snd (get_next_episode example_lib
     [anime_a1 [numbered (PNum 2) ''s2'', numbered (PNum 1) ''s1'', numbered (PNum 3) ''s3'']]
     ''a1'' ''s1'') \<noteq>
     [anime_a1 [numbered (PNum 2) ''s2'', numbered (PNum 1) ''s1'', numbered (PNum 3) ''s3'']]"
  by (simp add: get_next_episode_def get_anime_by_id_def list_sort_float_def number_key_def
      py_float_numeral py_float_one float_value_def numbered_def anime_a1_def)

section \<open>Properties of the cache and of iframe resolution\<close>

lemma cache_get_set_episode_iframe:
  "cache_get_episode_iframe (cache_set_episode_iframe cm now aid sess d) aid sess =
     Some \<lparr>entry_iframe_url = data_iframe_url d, entry_timestamp = Naive now,
           entry_success = success d\<rparr>"
  by (simp add: cache_get_episode_iframe_def cache_set_episode_iframe_def save_cache_def Let_def)

text \<open>
  Claim C5. Each of the two listing getters returns the stored items exactly when the
  entry has a time stamp that parses to a datetime without a time zone and less than 24
  hours (86400000000 microseconds) have passed since then. It returns nothing, and does
  not raise, when 24 hours or more have passed, when the time stamp does not parse, when
  it parses to a datetime with a time zone (the subtraction then raises inside the
  \<^verbatim>\<open>try\<close> block) and when the entry has no time stamp. An entry written at time \<open>T\<close>
  is returned at \<open>T\<close> plus 23 hours 59 minutes and is not returned at \<open>T\<close> plus 24
  hours 1 minute.
\<close>

theorem listing_cache_ttl:
  "(listing_timestamp (currently_airing_episodes (cache cm)) = Some (Naive t) \<longrightarrow>
      cache_get_currently_airing_episodes cm now =
        (if now - t < 24 * 60 * 60 * 1000000
         then Some (case listing_items (currently_airing_episodes (cache cm)) of
                      None \<Rightarrow> [] | Some xs \<Rightarrow> xs)
         else None)) \<and>
   (listing_timestamp (currently_airing_episodes (cache cm)) = Some Unparsed \<longrightarrow>
      cache_get_currently_airing_episodes cm now = None) \<and>
   (listing_timestamp (currently_airing_episodes (cache cm)) = Some (Aware t) \<longrightarrow>
      cache_get_currently_airing_episodes cm now = None) \<and>
   (listing_timestamp (currently_airing_episodes (cache cm)) = None \<longrightarrow>
      cache_get_currently_airing_episodes cm now = None) \<and>
   (listing_timestamp (popular_anime (cache cm)) = Some (Naive t) \<longrightarrow>
      cache_get_popular_anime cm now =
        (if now - t < 24 * 60 * 60 * 1000000
         then Some (case listing_items (popular_anime (cache cm)) of None \<Rightarrow> [] | Some xs \<Rightarrow> xs)
         else None)) \<and>
   (listing_timestamp (popular_anime (cache cm)) = Some Unparsed \<longrightarrow>
      cache_get_popular_anime cm now = None) \<and>
   (listing_timestamp (popular_anime (cache cm)) = Some (Aware t) \<longrightarrow>
      cache_get_popular_anime cm now = None) \<and>
   (listing_timestamp (popular_anime (cache cm)) = None \<longrightarrow>
      cache_get_popular_anime cm now = None) \<and>
   cache_get_currently_airing_episodes (cache_set_currently_airing_episodes cm T eps)
     (T + (23 * 60 + 59) * 60 * 1000000) = Some eps \<and>
   cache_get_currently_airing_episodes (cache_set_currently_airing_episodes cm T eps)
     (T + (24 * 60 + 1) * 60 * 1000000) = None \<and>
   cache_get_popular_anime (cache_set_popular_anime cm T pop)
     (T + (23 * 60 + 59) * 60 * 1000000) = Some pop \<and>
   cache_get_popular_anime (cache_set_popular_anime cm T pop)
     (T + (24 * 60 + 1) * 60 * 1000000) = None"
proof -
  have naive: "listing_timestamp l = Some (Naive t) \<Longrightarrow>
      get_listing l now =
        (if now - t < 24 * 60 * 60 * 1000000
         then Some (case listing_items l of None \<Rightarrow> [] | Some xs \<Rightarrow> xs) else None)"
    for l :: "'x listing"
    by (simp add: get_listing_def cache_age_def timedelta_hours_def)
  have other: "listing_timestamp l = Some Unparsed \<or> listing_timestamp l = Some (Aware t) \<or>
      listing_timestamp l = None \<Longrightarrow> get_listing l now = None"
    for l :: "'x listing"
    by (auto simp: get_listing_def cache_age_def)
  have a: "currently_airing_episodes (cache (cache_set_currently_airing_episodes cm T eps)) =
      \<lparr>listing_items = Some eps, listing_timestamp = Some (Naive T),
       listing_count = Some (length eps)\<rparr>"
    by (simp add: cache_set_currently_airing_episodes_def save_cache_def Let_def)
  have p: "popular_anime (cache (cache_set_popular_anime cm T pop)) =
      \<lparr>listing_items = Some pop, listing_timestamp = Some (Naive T),
       listing_count = Some (length pop)\<rparr>"
    by (simp add: cache_set_popular_anime_def save_cache_def Let_def)
  have written: "get_listing \<lparr>listing_items = Some xs, listing_timestamp = Some (Naive T),
        listing_count = Some (length xs)\<rparr> (T + (23 * 60 + 59) * 60 * 1000000) = Some xs \<and>
      get_listing \<lparr>listing_items = Some xs, listing_timestamp = Some (Naive T),
        listing_count = Some (length xs)\<rparr> (T + (24 * 60 + 1) * 60 * 1000000) = None"
    for xs :: "'x list"
    by (simp add: get_listing_def cache_age_def timedelta_hours_def)
  show ?thesis
    unfolding cache_get_currently_airing_episodes_def cache_get_popular_anime_def a p
    using naive [of "currently_airing_episodes (cache cm)"]
      naive [of "popular_anime (cache cm)"]
      other [of "currently_airing_episodes (cache cm)"]
      other [of "popular_anime (cache cm)"]
      written [of eps] written [of pop]
    by blast
qed

theorem listing_cache_ttl_witness:
  "cache_get_currently_airing_episodes (cache_stamped (Some (Naive 500)) (Some Unparsed))
     (500 + 86399999999) = Some [''ep1'', ''ep2''] \<and>
   cache_get_currently_airing_episodes (cache_stamped (Some (Naive 500)) (Some Unparsed))
     (500 + 86400000000) = None \<and>
   cache_get_popular_anime (cache_stamped (Some (Naive 500)) (Some Unparsed))
     (500 + 86399999999) = None \<and>
   cache_get_currently_airing_episodes (cache_stamped (Some Unparsed) (Some (Naive 500)))
     501 = None \<and>
   cache_get_popular_anime (cache_stamped (Some Unparsed) (Some (Naive 500)))
     (500 + 86399999999) = Some [''show''] \<and>
   cache_get_popular_anime (cache_stamped (Some Unparsed) (Some (Naive 500)))
     (500 + 86400000000) = None \<and>
   cache_get_currently_airing_episodes (cache_stamped (Some (Aware 500)) None) 501 = None \<and>
   cache_get_popular_anime (cache_stamped (Some (Aware 500)) None) 501 = None \<and>
   cache_get_currently_airing_episodes (cache_stamped None (Some (Aware 500))) 501 = None \<and>
   cache_get_popular_anime (cache_stamped None (Some (Aware 500))) 501 = None \<and>
   cache_get_currently_airing_episodes
     (cache_set_currently_airing_episodes (cache_stamped None None) 500 [''ep3''])
     (500 + 86340000000) = Some [''ep3''] \<and>
   cache_get_currently_airing_episodes
     (cache_set_currently_airing_episodes (cache_stamped None None) 500 [''ep3''])
     (500 + 86460000000) = None \<and>
   cache_get_popular_anime
     (cache_set_popular_anime (cache_stamped None None) 500 [''show2''])
     (500 + 86340000000) = Some [''show2''] \<and>
   cache_get_popular_anime
     (cache_set_popular_anime (cache_stamped None None) 500 [''show2''])
     (500 + 86460000000) = None"
  using
    listing_cache_ttl [of "cache_stamped (Some (Naive 500)) (Some Unparsed)" 500
      "500 + 86399999999" 500 "[''ep3'']" "[''show2'']"]
    listing_cache_ttl [of "cache_stamped (Some (Naive 500)) (Some Unparsed)" 500
      "500 + 86400000000" 500 "[''ep3'']" "[''show2'']"]
    listing_cache_ttl [of "cache_stamped (Some Unparsed) (Some (Naive 500))" 500
      "500 + 86399999999" 500 "[''ep3'']" "[''show2'']"]
    listing_cache_ttl [of "cache_stamped (Some Unparsed) (Some (Naive 500))" 500
      "500 + 86400000000" 500 "[''ep3'']" "[''show2'']"]
    listing_cache_ttl [of "cache_stamped (Some Unparsed) (Some (Naive 500))" 500
      501 500 "[''ep3'']" "[''show2'']"]
    listing_cache_ttl [of "cache_stamped (Some (Aware 500)) None" 500
      501 500 "[''ep3'']" "[''show2'']"]
    listing_cache_ttl [of "cache_stamped None (Some (Aware 500))" 500
      501 500 "[''ep3'']" "[''show2'']"]
    listing_cache_ttl [of "cache_stamped None None" 500
      501 500 "[''ep3'']" "[''show2'']"]
  by (simp add: cache_stamped_def example_cache_manager_def get_default_cache_def)

text \<open>
  Claim C7. When the index holds an episode for the anime id and session whose
  \<open>iframe_url\<close> is a non-empty string, \<open>get_episode_iframe\<close> returns that URL with
  \<open>success = True\<close> and the backend is exactly as before: the cache in memory, the cache
  file and the browser are untouched. The result is the same whatever the cache holds.
\<close>

theorem indexed_iframe_leaves_cache_alone:
  assumes "get_episode (anime_index be) aid sess = Some ep \<and> iframe_url ep = Some u \<and> u \<noteq> []"
  shows "get_episode_iframe be now aid sess =
           (\<lparr>data_iframe_url = Some u, success = True, error = None\<rparr>, be) \<and>
         (\<forall>cm. fst (get_episode_iframe (be\<lparr>backend_cache := cm\<rparr>) now aid sess) =
           \<lparr>data_iframe_url = Some u, success = True, error = None\<rparr>)"
  using assms by (simp add: get_episode_iframe_def)

theorem indexed_iframe_leaves_cache_alone_witness:
  "get_episode (anime_index (example_backend page_without_iframe)) ''a1'' ''s1'' =
     Some ((numbered (PNum 1) ''s1'')\<lparr>iframe_url := Some ''https://kwik.si/e/s1''\<rparr>) \<and>
   get_episode_iframe (example_backend page_without_iframe) 1000 ''a1'' ''s1'' =
     (\<lparr>data_iframe_url = Some ''https://kwik.si/e/s1'', success = True, error = None\<rparr>,
      example_backend page_without_iframe)"
  using indexed_iframe_leaves_cache_alone
    [of "example_backend page_without_iframe" "''a1''" "''s1''"
        "(numbered (PNum 1) ''s1'')\<lparr>iframe_url := Some ''https://kwik.si/e/s1''\<rparr>"
        "''https://kwik.si/e/s1''" 1000]
  by (simp add: example_backend_def get_episode_def get_anime_by_id_def anime_a1_def
      numbered_def)

text \<open>
  Claim C6. If the cache holds an entry for the anime id and session with
  \<open>success = False\<close>, \<open>scrape_episode_iframe\<close> opens a browsing context and returns what
  the extraction finds on the page now, not the stored entry. No context is opened
  exactly when the cache holds an entry with \<open>success = True\<close>. After a call that
  returned a failure, the next call for the same pair extracts again, from the page the
  site serves then.
\<close>

theorem failed_iframe_entry_is_a_miss:
  "(\<forall>e. cache_get_episode_iframe (backend_cache be) aid sess = Some e \<and> \<not> entry_success e \<longrightarrow>
      fst (scrape_episode_iframe be now aid sess) =
        extract_iframe (site (backend_browser be) (base_url @ ''/play/'' @ aid @ ''/'' @ sess))
          (base_url @ ''/play/'' @ aid @ ''/'' @ sess) \<and>
      contexts_opened (backend_browser (snd (scrape_episode_iframe be now aid sess))) =
        Suc (contexts_opened (backend_browser be))) \<and>
   ((\<exists>e. cache_get_episode_iframe (backend_cache be) aid sess = Some e \<and> entry_success e) =
      (contexts_opened (backend_browser (snd (scrape_episode_iframe be now aid sess))) =
         contexts_opened (backend_browser be))) \<and>
   (\<forall>site2 now2.
      \<not> success (fst (scrape_episode_iframe be now aid sess)) \<longrightarrow>
      fst (scrape_episode_iframe
             ((snd (scrape_episode_iframe be now aid sess))
                \<lparr>backend_browser :=
                   (backend_browser (snd (scrape_episode_iframe be now aid sess)))
                     \<lparr>site := site2\<rparr>\<rparr>) now2 aid sess) =
        extract_iframe (site2 (base_url @ ''/play/'' @ aid @ ''/'' @ sess))
          (base_url @ ''/play/'' @ aid @ ''/'' @ sess) \<and>
      contexts_opened (backend_browser (snd (scrape_episode_iframe
             ((snd (scrape_episode_iframe be now aid sess))
                \<lparr>backend_browser :=
                   (backend_browser (snd (scrape_episode_iframe be now aid sess)))
                     \<lparr>site := site2\<rparr>\<rparr>) now2 aid sess))) =
        Suc (Suc (contexts_opened (backend_browser be))))"
proof (intro conjI allI impI)
  fix e
  assume "cache_get_episode_iframe (backend_cache be) aid sess = Some e \<and> \<not> entry_success e"
  then show "fst (scrape_episode_iframe be now aid sess) =
        extract_iframe (site (backend_browser be) (base_url @ ''/play/'' @ aid @ ''/'' @ sess))
          (base_url @ ''/play/'' @ aid @ ''/'' @ sess)"
    and "contexts_opened (backend_browser (snd (scrape_episode_iframe be now aid sess))) =
        Suc (contexts_opened (backend_browser be))"
    by (simp_all add: scrape_episode_iframe_def Let_def)
next
  show "(\<exists>e. cache_get_episode_iframe (backend_cache be) aid sess = Some e \<and> entry_success e) =
      (contexts_opened (backend_browser (snd (scrape_episode_iframe be now aid sess))) =
         contexts_opened (backend_browser be))"
    by (auto simp add: scrape_episode_iframe_def Let_def split: option.splits)
next
  fix site2 now2
  let ?r1 = "scrape_episode_iframe be now aid sess"
  let ?url = "base_url @ ''/play/'' @ aid @ ''/'' @ sess"
  let ?be2 = "(snd ?r1)\<lparr>backend_browser := (backend_browser (snd ?r1))\<lparr>site := site2\<rparr>\<rparr>"
  assume fail: "\<not> success (fst ?r1)"
  then have miss1: "\<not> (case cache_get_episode_iframe (backend_cache be) aid sess of
                        None \<Rightarrow> False | Some e \<Rightarrow> entry_success e)"
    by (auto simp add: scrape_episode_iframe_def Let_def split: if_splits)
  then have r1: "?r1 = (extract_iframe (site (backend_browser be) ?url) ?url,
      be\<lparr>backend_browser := (backend_browser be)\<lparr>contexts_opened := Suc (contexts_opened (backend_browser be))\<rparr>,
         backend_cache := cache_set_episode_iframe (backend_cache be) now aid sess
            (extract_iframe (site (backend_browser be) ?url) ?url)\<rparr>)"
    by (simp add: scrape_episode_iframe_def Let_def)
  have stored: "cache_get_episode_iframe (backend_cache ?be2) aid sess =
      Some \<lparr>entry_iframe_url = data_iframe_url (fst ?r1), entry_timestamp = Naive now,
            entry_success = False\<rparr>"
    using fail by (simp add: r1 cache_get_set_episode_iframe)
  show "fst (scrape_episode_iframe ?be2 now2 aid sess) = extract_iframe (site2 ?url) ?url"
    unfolding scrape_episode_iframe_def [of ?be2] stored by (simp add: Let_def)
  show "contexts_opened (backend_browser (snd (scrape_episode_iframe ?be2 now2 aid sess))) =
        Suc (Suc (contexts_opened (backend_browser be)))"
    unfolding scrape_episode_iframe_def [of ?be2] stored by (simp add: Let_def r1)
qed

theorem failed_iframe_entry_is_a_miss_witness:
  "cache_get_episode_iframe
     (backend_cache (snd (scrape_episode_iframe (example_backend page_without_iframe) 1000
        ''a1'' ''s2''))) ''a1'' ''s2'' =
     Some \<lparr>entry_iframe_url = None, entry_timestamp = Naive 1000, entry_success = False\<rparr> \<and>
   fst (scrape_episode_iframe (example_backend page_without_iframe) 1000 ''a1'' ''s2'') =
     error_data ''No iframe found on page'' \<and>
   fst (scrape_episode_iframe
          ((snd (scrape_episode_iframe (example_backend page_without_iframe) 1000 ''a1'' ''s2''))
             \<lparr>backend_browser :=
                (backend_browser (snd (scrape_episode_iframe
                   (example_backend page_without_iframe) 1000 ''a1'' ''s2'')))
                  \<lparr>site := (\<lambda>u. page_with_iframe)\<rparr>\<rparr>) 2000 ''a1'' ''s2'') =
     found_data ''https://kwik.si/e/abc'' \<and>
   contexts_opened (backend_browser (snd (scrape_episode_iframe
          ((snd (scrape_episode_iframe (example_backend page_without_iframe) 1000 ''a1'' ''s2''))
             \<lparr>backend_browser :=
                (backend_browser (snd (scrape_episode_iframe
                   (example_backend page_without_iframe) 1000 ''a1'' ''s2'')))
                  \<lparr>site := (\<lambda>u. page_with_iframe)\<rparr>\<rparr>) 2000 ''a1'' ''s2''))) = 2"
proof -
  have first: "fst (scrape_episode_iframe (example_backend page_without_iframe) 1000 ''a1'' ''s2'') =
      error_data ''No iframe found on page''"
    by (simp add: scrape_episode_iframe_def example_backend_def example_cache_manager_def
        get_default_cache_def cache_get_episode_iframe_def extract_iframe_def
        page_without_iframe_def startswith_def Let_def)
  have stored: "cache_get_episode_iframe
     (backend_cache (snd (scrape_episode_iframe (example_backend page_without_iframe) 1000
        ''a1'' ''s2''))) ''a1'' ''s2'' =
     Some \<lparr>entry_iframe_url = None, entry_timestamp = Naive 1000, entry_success = False\<rparr>"
    using first
    by (simp add: scrape_episode_iframe_def example_backend_def example_cache_manager_def
        get_default_cache_def cache_get_episode_iframe_def cache_set_episode_iframe_def
        save_cache_def error_data_def Let_def)
  have page: "extract_iframe page_with_iframe u = found_data ''https://kwik.si/e/abc''" for u
    by (simp add: extract_iframe_def page_with_iframe_def startswith_def)
  have fail: "\<not> success (fst (scrape_episode_iframe (example_backend page_without_iframe) 1000
      ''a1'' ''s2''))"
    using first by (simp add: error_data_def)
  show ?thesis
    using failed_iframe_entry_is_a_miss
      [of "example_backend page_without_iframe" "''a1''" "''s2''" 1000]
      first stored page fail
    by (simp add: example_backend_def)
qed

section \<open>Properties of the index-backed episode list\<close>

lemma take_min_length: "take (min (length ys) k) ys = take k ys"
  by (simp add: min_def)

lemma py_slice_page:
  assumes "1 \<le> page"
  shows "py_slice xs ((page - 1) * 50) (page * 50) = take 50 (drop (50 * nat (page - 1)) xs)"
proof -
  define lo where "lo = 50 * nat (page - 1)"
  have lo: "(page - 1) * 50 = int lo" using assms by (simp add: lo_def)
  have hi: "page * 50 = int (lo + 50)" using assms by (simp add: lo_def)
  show ?thesis
  proof (cases "lo < length xs")
    case True
    have "nat (min (int (length xs)) (int (lo + 50)) - int lo) = min (length (drop lo xs)) 50"
      using True unfolding length_drop min_def by (auto simp: nat_diff_distrib')
    then have "take (nat (min (int (length xs)) (int (lo + 50)) - int lo)) (drop lo xs) =
        take 50 (drop lo xs)"
      by (simp only: take_min_length)
    moreover have "min (int (length xs)) (int lo) = int lo" using True by simp
    ultimately show ?thesis
      unfolding py_slice_def lo hi lo_def [symmetric] by (simp add: Let_def)
  next
    case False
    then have "drop lo xs = []" by simp
    moreover have "min (int (length xs)) (int lo) = int (length xs)" using False by simp
    ultimately show ?thesis
      unfolding py_slice_def lo hi lo_def [symmetric] by (simp add: Let_def)
  qed
qed

lemma get_episodes_page:
  assumes found: "get_anime_by_id all_anime aid = Some a" "a_episodes a = Some eps"
    and srt: "list_sort (\<lambda>x. py_int L (number x)) (map format_episode eps) = Inr ordered"
    and page: "1 \<le> page"
  shows "get_episodes L all_anime aid page =
     Inr \<lparr>page_title = (case a_title a of None \<Rightarrow> ''Unknown Title'' | Some t \<Rightarrow> t),
          page_episodes = take 50 (drop (50 * nat (page - 1)) ordered),
          total_episodes = length ordered,
          has_next_page = (page * 50 < int (length ordered)),
          current_page = page,
          next_page = (if page * 50 < int (length ordered) then Some (page + 1) else None)\<rparr>"
  using found srt py_slice_page [OF page, of ordered]
  by (simp add: get_episodes_def EPISODES_PER_PAGE_def Let_def)


text \<open>
  Claim C4. For an anime of the index whose episode numbers all convert to integers,
  \<open>get_episodes\<close> sorts the formatted episodes by number (a permutation with ascending
  keys in which equal keys keep their order) and returns, for a page from 1 on, the 50
  records that start at offset 50 times (page minus 1), with \<open>has_next_page\<close> true
  exactly when 50 times the page is below the number of episodes, and \<open>next_page\<close> the
  page plus 1 then and absent otherwise. With 120 episodes, page 1 holds the first 50
  records of the sorted list, \<open>has_next_page\<close> is true and \<open>next_page\<close> is 2; page 3
  holds the records from the 101st to the 120th, \<open>has_next_page\<close> is false and
  \<open>next_page\<close> is absent.
\<close>

theorem get_episodes_pagination:
  assumes found: "get_anime_by_id all_anime aid = Some a \<and> a_episodes a = Some eps"
    and num: "\<forall>e \<in> set eps. \<exists>i. py_int L (number (format_episode e)) = Inr i"
  shows "\<exists>ordered.
     mset ordered = mset (map format_episode eps) \<and>
     (\<exists>ks. map (\<lambda>x. py_int L (number x)) ordered = map Inr ks \<and> sorted ks) \<and>
     (\<forall>k. filter (\<lambda>x. py_int L (number x) = k) ordered =
           filter (\<lambda>x. py_int L (number x) = k) (map format_episode eps)) \<and>
     (1 \<le> page \<longrightarrow>
        get_episodes L all_anime aid page =
          Inr \<lparr>page_title = (case a_title a of None \<Rightarrow> ''Unknown Title'' | Some t \<Rightarrow> t),
               page_episodes = take 50 (drop (50 * nat (page - 1)) ordered),
               total_episodes = length eps,
               has_next_page = (page * 50 < int (length eps)),
               current_page = page,
               next_page = (if page * 50 < int (length eps) then Some (page + 1) else None)\<rparr>) \<and>
     (length eps = 120 \<longrightarrow>
        get_episodes L all_anime aid 1 =
          Inr \<lparr>page_title = (case a_title a of None \<Rightarrow> ''Unknown Title'' | Some t \<Rightarrow> t),
               page_episodes = take 50 ordered, total_episodes = 120,
               has_next_page = True, current_page = 1, next_page = Some 2\<rparr> \<and>
        get_episodes L all_anime aid 3 =
          Inr \<lparr>page_title = (case a_title a of None \<Rightarrow> ''Unknown Title'' | Some t \<Rightarrow> t),
               page_episodes = drop 100 ordered, total_episodes = 120,
               has_next_page = False, current_page = 3, next_page = None\<rparr>)"
proof -
  have "\<forall>x \<in> set (map format_episode eps). \<exists>i. py_int L (number x) = Inr i"
    using num by simp
  from list_sort_numeric [OF this] obtain ordered where
    o: "list_sort (\<lambda>x. py_int L (number x)) (map format_episode eps) = Inr ordered"
      "mset ordered = mset (map format_episode eps)"
      "\<exists>ks. map (\<lambda>x. py_int L (number x)) ordered = map Inr ks \<and> sorted ks"
      "\<forall>k. filter (\<lambda>x. py_int L (number x) = k) ordered =
           filter (\<lambda>x. py_int L (number x) = k) (map format_episode eps)"
    by blast
  have len: "length ordered = length eps"
    using o(2) by (metis length_map size_mset)
  have general: "get_episodes L all_anime aid p =
          Inr \<lparr>page_title = (case a_title a of None \<Rightarrow> ''Unknown Title'' | Some t \<Rightarrow> t),
               page_episodes = take 50 (drop (50 * nat (p - 1)) ordered),
               total_episodes = length eps,
               has_next_page = (p * 50 < int (length eps)),
               current_page = p,
               next_page = (if p * 50 < int (length eps) then Some (p + 1) else None)\<rparr>"
    if "1 \<le> p" for p
    using get_episodes_page [of all_anime aid a eps L ordered p] found o(1) that len by simp
  have p1: "length eps = 120 \<Longrightarrow> get_episodes L all_anime aid 1 =
          Inr \<lparr>page_title = (case a_title a of None \<Rightarrow> ''Unknown Title'' | Some t \<Rightarrow> t),
               page_episodes = take 50 ordered, total_episodes = 120,
               has_next_page = True, current_page = 1, next_page = Some 2\<rparr>"
    using general [of 1] by simp
  have p3: "length eps = 120 \<Longrightarrow> get_episodes L all_anime aid 3 =
          Inr \<lparr>page_title = (case a_title a of None \<Rightarrow> ''Unknown Title'' | Some t \<Rightarrow> t),
               page_episodes = drop 100 ordered, total_episodes = 120,
               has_next_page = False, current_page = 3, next_page = None\<rparr>"
    using general [of 3] len by simp
  show ?thesis
    using o(2,3,4) general [of page] p1 p3 by blast
qed

lemma filter_same_key_distinct:
  assumes "distinct (map f xs)" "k \<in> set xs"
  shows "filter (\<lambda>x. f k = f x) xs = [k]"
  using assms
proof (induction xs)
  case Nil
  then show ?case by simp
next
  case (Cons x xs)
  show ?case
  proof (cases "k = x")
    case True
    have "filter (\<lambda>y. f x = f y) xs = []"
      using Cons.prems(1) by (auto simp: filter_empty_conv)
    then show ?thesis using True by simp
  next
    case False
    then have kin: "k \<in> set xs" using Cons.prems(2) by simp
    have "f x \<notin> f ` set xs" using Cons.prems(1) by simp
    then have ne: "f k \<noteq> f x" using kin by (metis imageI)
    show ?thesis using Cons.IH kin ne Cons.prems(1) by simp
  qed
qed

lemma sort_key_rev_distinct:
  assumes "sorted (map f xs)" "distinct (map f xs)"
  shows "sort_key f (rev xs) = xs"
proof (rule properties_for_sort_key)
  show "mset xs = mset (rev xs)" by simp
  show "sorted (map f xs)" by fact
  fix k assume k: "k \<in> set xs"
  have "distinct (map f (rev xs))" using assms(2) by (simp add: rev_map [symmetric])
  then have "filter (\<lambda>x. f k = f x) (rev xs) = [k]"
    using k by (intro filter_same_key_distinct) simp_all
  then show "filter (\<lambda>x. f k = f x) xs = filter (\<lambda>x. f k = f x) (rev xs)"
    using filter_same_key_distinct [OF assms(2) k] by simp
qed

lemma format_episodes_numbered:
  "map format_episode (episodes_numbered ns) = formatted_numbered ns"
  by (simp add: episodes_numbered_def formatted_numbered_def format_episode_def numbered_def
      clean_episode_title_def)

lemma formatted_numbered_keys:
  "map (\<lambda>x. py_int L (number x)) (formatted_numbered ns) = map Inr (map int ns)"
  by (simp add: formatted_numbered_def py_int_def)

lemma list_sort_formatted_numbered_rev:
  assumes "sorted ns" "distinct ns"
  shows "list_sort (\<lambda>x. py_int L (number x)) (formatted_numbered (rev ns)) =
           Inr (formatted_numbered ns)"
proof -
  let ?g = "\<lambda>x. projr (py_int L (number x))"
  have keys: "map ?g (formatted_numbered ns) = map int ns"
    by (simp add: formatted_numbered_def py_int_def)
  have "sorted (map int ns)" using assms(1) by (simp add: sorted_map strict_sorted_iff sorted_wrt_mono_rel[of _ "(\<le>)"])
  moreover have "distinct (map int ns)" using assms(2) by (simp add: distinct_map inj_on_def)
  ultimately have "sort_key ?g (rev (formatted_numbered ns)) = formatted_numbered ns"
    using keys by (intro sort_key_rev_distinct) simp_all
  moreover have "formatted_numbered (rev ns) = rev (formatted_numbered ns)"
    by (simp add: formatted_numbered_def rev_map)
  ultimately show ?thesis
    using list_sort_Inr [OF formatted_numbered_keys, of L "rev ns"] by simp
qed

theorem get_episodes_pagination_witness:
  "get_anime_by_id [anime_a1 (episodes_numbered (rev [1..<121]))] ''a1'' =
     Some (anime_a1 (episodes_numbered (rev [1..<121]))) \<and>
   length (episodes_numbered (rev [1..<121])) = 120 \<and>
   get_episodes example_lib [anime_a1 (episodes_numbered (rev [1..<121]))] ''a1'' 1 =
     Inr \<lparr>page_title = ''Show'', page_episodes = formatted_numbered [1..<51],
          total_episodes = 120, has_next_page = True, current_page = 1, next_page = Some 2\<rparr> \<and>
   get_episodes example_lib [anime_a1 (episodes_numbered (rev [1..<121]))] ''a1'' 2 =
     Inr \<lparr>page_title = ''Show'', page_episodes = formatted_numbered [51..<101],
          total_episodes = 120, has_next_page = True, current_page = 2, next_page = Some 3\<rparr> \<and>
   get_episodes example_lib [anime_a1 (episodes_numbered (rev [1..<121]))] ''a1'' 3 =
     Inr \<lparr>page_title = ''Show'', page_episodes = formatted_numbered [101..<121],
          total_episodes = 120, has_next_page = False, current_page = 3, next_page = None\<rparr>"
proof -
  let ?eps = "episodes_numbered (rev [1..<121])"
  have found: "get_anime_by_id [anime_a1 ?eps] ''a1'' = Some (anime_a1 ?eps)"
    "a_episodes (anime_a1 ?eps) = Some ?eps" "a_title (anime_a1 ?eps) = Some ''Show''"
    by (simp_all add: get_anime_by_id_def anime_a1_def)
  have len: "length ?eps = 120" by (simp add: episodes_numbered_def)
  have srt: "list_sort (\<lambda>x. py_int example_lib (number x)) (map format_episode ?eps) =
      Inr (formatted_numbered [1..<121])"
    unfolding format_episodes_numbered
    by (rule list_sort_formatted_numbered_rev) simp_all
  have u1: "take 50 [1..<121] = [1..<51::nat]"
    using take_upt [of 1 50 121] by simp
  have u2: "take 50 (drop 50 [1..<121]) = [51..<101::nat]"
    using take_upt [of 51 50 121] by (simp del: upt_Suc)
  have u3: "take 50 (drop 100 [1..<121]) = [101..<121::nat]"
    by (simp del: upt_Suc)
  have t1: "take 50 (formatted_numbered [1..<121]) = formatted_numbered [1..<51]"
    unfolding formatted_numbered_def take_map u1 ..
  have t2: "take 50 (drop 50 (formatted_numbered [1..<121])) = formatted_numbered [51..<101]"
    unfolding formatted_numbered_def take_map drop_map u2 ..
  have t3: "take 50 (drop 100 (formatted_numbered [1..<121])) = formatted_numbered [101..<121]"
    unfolding formatted_numbered_def take_map drop_map u3 ..
  have l: "length (formatted_numbered [1..<121]) = 120" by (simp add: formatted_numbered_def)
  note pg = get_episodes_page [OF found(1,2) srt]
  show ?thesis
    using get_episodes_pagination [of "[anime_a1 ?eps]" "''a1''" "anime_a1 ?eps" ?eps example_lib 1]
      found len pg [of 1] pg [of 2] pg [of 3] t1 t2 t3 l
    by simp
qed

section \<open>Properties of the search\<close>

lemma score_anime_spec:
  "score_anime L query a =
     (if spec_keep L query (title_of a) then Some (spec_result L query a) else None)"
  by (simp add: score_anime_def spec_keep_def spec_priority_def title_of_def
      similarity_score_def spec_result_def spec_match_type_def Let_def)

lemma map_filter_score:
  "List.map_filter (score_anime L query) all_anime =
     map (spec_result L query) (filter (\<lambda>a. spec_keep L query (title_of a)) all_anime)"
  by (induction all_anime) (simp_all add: List.map_filter_simps score_anime_spec)

lemma map_filter_score_entries:
  "map entry (List.map_filter (score_anime L query) all_anime) =
     filter (\<lambda>a. spec_keep L query (title_of a)) all_anime"
  unfolding map_filter_score by (induction all_anime) (simp_all add: spec_result_def)

lemma map_filter_score_member:
  assumes "r \<in> set (List.map_filter (score_anime L query) all_anime)"
  shows "entry r \<in> set all_anime \<and> spec_keep L query (title_of (entry r)) \<and>
         priority r = spec_priority L query (title_of (entry r))"
  using assms unfolding map_filter_score by (auto simp: spec_result_def)

lemma result_keys_titled:
  assumes "\<forall>r \<in> set rs. a_title (entry r) \<noteq> None"
  shows "map result_key rs = map Inr (map rank_key rs)"
  using assms by (induction rs) (auto simp: result_key_def title_of_def rank_key_def)

lemma py_slice_from_0:
  "py_slice xs 0 limit =
     take (nat (if limit < 0 then max 0 (int (length xs) + limit)
                else min (int (length xs)) limit)) xs"
  by (simp add: py_slice_def Let_def)

lemma py_slice_first:
  "py_slice xs 0 limit =
     (if 0 \<le> limit then take (nat limit) xs else take (length xs - nat (- limit)) xs)"
proof (cases "0 \<le> limit")
  case True
  show ?thesis
  proof (cases "int (length xs) \<le> limit")
    case le: True
    then have "length xs \<le> nat limit" by simp
    then show ?thesis using True le by (simp add: py_slice_from_0 min_def)
  next
    case False
    then show ?thesis using True by (simp add: py_slice_from_0 min_def)
  qed
next
  case False
  then obtain m where m: "limit = - int (Suc m)" by (cases limit) auto
  have "nat (max 0 (int (length xs) + limit)) = length xs - nat (- limit)"
    unfolding m by (cases "Suc m \<le> length xs") (simp_all add: max_def)
  then show ?thesis using False by (simp add: py_slice_from_0)
qed

lemma mset_take_le: "mset (take k xs) \<subseteq># mset xs"
proof -
  have "mset xs = mset (take k xs) + mset (drop k xs)"
    by (metis append_take_drop_id mset_append)
  then show ?thesis by simp
qed

lemma flexible_search_sorted:
  assumes "query \<noteq> []" "all_anime \<noteq> []" "\<forall>a \<in> set all_anime. a_title a \<noteq> None"
  shows "flexible_search L all_anime query limit =
     Inr (py_slice
            (sort_key rank_key (List.map_filter (score_anime L query) all_anime)) 0 limit)"
proof -
  let ?results = "List.map_filter (score_anime L query) all_anime"
  have "\<forall>r \<in> set ?results. a_title (entry r) \<noteq> None"
    using map_filter_score_member [of _ L query all_anime] assms(3) by blast
  from list_sort_Inr [OF result_keys_titled [OF this]]
  have "list_sort result_key ?results =
      Inr (sort_key (\<lambda>x. projr (result_key x)) ?results)" .
  moreover have "sort_key (\<lambda>x. projr (result_key x)) ?results = sort_key rank_key ?results"
  proof (rule sort_key_cong_set)
    fix r assume "r \<in> set ?results"
    then have "a_title (entry r) \<noteq> None"
      using map_filter_score_member [of r L query all_anime] assms(3) by blast
    then show "projr (result_key r) = rank_key r"
      by (auto simp: result_key_def title_of_def rank_key_def)
  qed
  ultimately show ?thesis
    using assms(1,2) by (simp add: flexible_search_def Let_def)
qed

text \<open>
  Claim C1, as amended. For the empty query the result is empty. For a query that is
  not empty, on a catalogue whose entries all have a title, the candidates are the
  catalogue entries that satisfy the specification's condition for being kept, each
  with the priority and the classification of the specification's rule. \<open>ranked\<close> is
  the list of these candidates in sort order: a permutation of them with ascending keys
  (descending priority, then ascending title) in which candidates with equal keys keep
  their catalogue order. The search returns the first \<open>limit\<close> elements of \<open>ranked\<close>,
  and all but the last \<open>- limit\<close> when the limit is negative. So every returned
  candidate is a catalogue entry that carries the priority of the rule and satisfies the
  condition; the returned entries are among the catalogue entries that satisfy the
  condition, each as often as it is there; and they are all of them when no more than
  \<open>limit\<close> entries satisfy it.
\<close>

theorem flexible_search_priority_and_filter:
  assumes "query \<noteq> []" and "\<forall>a \<in> set all_anime. a_title a \<noteq> None"
  shows "flexible_search L all_anime [] limit = Inr [] \<and>
     (\<exists>ranked.
        mset ranked =
          mset (map (spec_result L query)
                  (filter (\<lambda>a. spec_keep L query (title_of a)) all_anime)) \<and>
        sorted (map rank_key ranked) \<and>
        (\<forall>k. filter (\<lambda>r. rank_key r = k) ranked =
              filter (\<lambda>r. rank_key r = k)
                (map (spec_result L query)
                   (filter (\<lambda>a. spec_keep L query (title_of a)) all_anime))) \<and>
        flexible_search L all_anime query limit =
          Inr (if 0 \<le> limit then take (nat limit) ranked
               else take (length ranked - nat (- limit)) ranked)) \<and>
     (\<exists>rs. flexible_search L all_anime query limit = Inr rs \<and>
        (\<forall>r \<in> set rs.
           entry r \<in> set all_anime \<and>
           priority r = spec_priority L query (title_of (entry r)) \<and>
           spec_keep L query (title_of (entry r))) \<and>
        mset (map entry rs) \<subseteq># mset (filter (\<lambda>a. spec_keep L query (title_of a)) all_anime) \<and>
        (int (length (filter (\<lambda>a. spec_keep L query (title_of a)) all_anime)) \<le> limit \<longrightarrow>
           mset (map entry rs) =
             mset (filter (\<lambda>a. spec_keep L query (title_of a)) all_anime)))"
proof -
  let ?kept = "filter (\<lambda>a. spec_keep L query (title_of a)) all_anime"
  let ?results = "map (spec_result L query) ?kept"
  let ?sorted = "sort_key rank_key ?results"
  let ?first = "\<lambda>xs :: search_result list.
      if 0 \<le> limit then take (nat limit) xs else take (length xs - nat (- limit)) xs"
  have empty: "flexible_search L all_anime [] limit = Inr []"
    by (simp add: flexible_search_def)
  have fs: "flexible_search L all_anime query limit = Inr (?first ?sorted)"
  proof (cases "all_anime = []")
    case True
    then show ?thesis by (simp add: flexible_search_def)
  next
    case False
    show ?thesis
      using flexible_search_sorted [OF assms(1) False assms(2), of L limit]
      unfolding py_slice_first map_filter_score .
  qed
  have perm: "mset ?sorted = mset ?results" by simp
  have srt: "sorted (map rank_key ?sorted)" by (rule sorted_sort_key)
  have stable: "\<forall>k. filter (\<lambda>r. rank_key r = k) ?sorted = filter (\<lambda>r. rank_key r = k) ?results"
    by (simp add: sort_key_stable)
  have ranked: "\<exists>ranked.
        mset ranked = mset ?results \<and> sorted (map rank_key ranked) \<and>
        (\<forall>k. filter (\<lambda>r. rank_key r = k) ranked = filter (\<lambda>r. rank_key r = k) ?results) \<and>
        flexible_search L all_anime query limit = Inr (?first ranked)"
    using perm srt stable fs by blast
  obtain k where k: "?first ?sorted = take k ?sorted"
    "length ?sorted \<le> nat limit \<longrightarrow> length ?sorted \<le> k"
    by (cases "0 \<le> limit") auto
  have members: "\<forall>r \<in> set (take k ?sorted).
        entry r \<in> set all_anime \<and>
        priority r = spec_priority L query (title_of (entry r)) \<and>
        spec_keep L query (title_of (entry r))"
  proof
    fix r assume "r \<in> set (take k ?sorted)"
    then have "r \<in> set ?sorted" using set_take_subset [of k ?sorted] by blast
    then have "r \<in> set ?results" by simp
    then show "entry r \<in> set all_anime \<and>
        priority r = spec_priority L query (title_of (entry r)) \<and>
        spec_keep L query (title_of (entry r))"
      by (auto simp: spec_result_def)
  qed
  have entries: "map entry ?results = ?kept"
    by (induction all_anime) (simp_all add: spec_result_def)
  have all: "mset (map entry ?sorted) = mset ?kept"
  proof -
    have "mset (map entry ?sorted) = mset (map entry ?results)"
      by (simp only: mset_map mset_sort)
    then show ?thesis by (simp only: entries)
  qed
  have sub: "mset (map entry (take k ?sorted)) \<subseteq># mset ?kept"
  proof -
    have "mset (map entry (take k ?sorted)) = mset (take k (map entry ?sorted))"
      by (simp add: take_map)
    also have "\<dots> \<subseteq># mset (map entry ?sorted)" by (rule mset_take_le)
    finally show ?thesis using all by simp
  qed
  have len: "length ?sorted = length ?kept" by simp
  have full: "mset (map entry (take k ?sorted)) = mset ?kept" if "int (length ?kept) \<le> limit"
  proof -
    have "length ?sorted \<le> nat limit" using that len by simp
    then have "length ?sorted \<le> k" using k(2) by blast
    then show ?thesis using all by simp
  qed
  have rs: "\<exists>rs. flexible_search L all_anime query limit = Inr rs \<and>
        (\<forall>r \<in> set rs.
           entry r \<in> set all_anime \<and>
           priority r = spec_priority L query (title_of (entry r)) \<and>
           spec_keep L query (title_of (entry r))) \<and>
        mset (map entry rs) \<subseteq># mset ?kept \<and>
        (int (length ?kept) \<le> limit \<longrightarrow> mset (map entry rs) = mset ?kept)"
    using fs k(1) members sub full by auto
  show ?thesis
    using empty ranked rs by (intro conjI)
qed

theorem flexible_search_priority_and_filter_witness:
  "flexible_search example_lib [titled ''a1'' ''Naruto Shippuden'', titled ''a2'' ''Naruto'']
     [] 1 = Inr [] \<and>
   flexible_search example_lib [titled ''a1'' ''Naruto Shippuden'', titled ''a2'' ''Naruto'']
     ''naruto'' 20 =
     Inr [exact_result (titled ''a2'' ''Naruto''),
          \<lparr>entry = titled ''a1'' ''Naruto Shippuden'', priority = 80,
           match_type = Starts_with\<rparr>] \<and>
   flexible_search example_lib [titled ''a1'' ''Naruto Shippuden'', titled ''a2'' ''Naruto'']
     ''naruto'' 1 = Inr [exact_result (titled ''a2'' ''Naruto'')] \<and>
   flexible_search example_lib [titled ''a1'' ''Naruto'', titled ''a2'' ''K''] ''naruto'' 20 =
     Inr [exact_result (titled ''a1'' ''Naruto'')] \<and>
   spec_priority example_lib ''naruto'' ''Naruto'' = 100 \<and>
   spec_keep example_lib ''naruto'' ''Naruto'' \<and>
   spec_priority example_lib ''naruto'' ''Naruto Shippuden'' = 80 \<and>
   spec_keep example_lib ''naruto'' ''Naruto Shippuden'' \<and>
   spec_priority example_lib ''naruto'' ''K'' = 0 \<and>
   \<not> spec_keep example_lib ''naruto'' ''K'' \<and>
   (20 :: rat) < 3602879701896397 / 9007199254740992 * 50 \<and>
   spec_priority (ratio_lib (3602879701896397 / 9007199254740992)) ''ab'' ''bcd'' = 20 \<and>
   \<not> spec_keep (ratio_lib (3602879701896397 / 9007199254740992)) ''ab'' ''bcd'' \<and>
   flexible_search (ratio_lib (3602879701896397 / 9007199254740992)) [titled ''a1'' ''bcd'']
     ''ab'' 20 = Inr []"
proof -
  have ne: "''naruto'' \<noteq> []" by simp
  have titles: "\<forall>a \<in> set [titled ''a1'' ''Naruto Shippuden'', titled ''a2'' ''Naruto''].
      a_title a \<noteq> None"
    by (simp add: titled_def)
  note t = flexible_search_priority_and_filter
    [of "''naruto''" "[titled ''a1'' ''Naruto Shippuden'', titled ''a2'' ''Naruto'']"
        example_lib 1, OF ne titles]
  from t have e: "flexible_search example_lib
      [titled ''a1'' ''Naruto Shippuden'', titled ''a2'' ''Naruto''] [] 1 = Inr []"
    by (rule conjunct1)
  have s20: "flexible_search example_lib
      [titled ''a1'' ''Naruto Shippuden'', titled ''a2'' ''Naruto''] ''naruto'' 20 =
     Inr [exact_result (titled ''a2'' ''Naruto''),
          \<lparr>entry = titled ''a1'' ''Naruto Shippuden'', priority = 80,
           match_type = Starts_with\<rparr>]"
    by code_simp
  have s1: "flexible_search example_lib
      [titled ''a1'' ''Naruto Shippuden'', titled ''a2'' ''Naruto''] ''naruto'' 1 =
      Inr [exact_result (titled ''a2'' ''Naruto'')]"
    by code_simp
  have search: "flexible_search example_lib [titled ''a1'' ''Naruto'', titled ''a2'' ''K'']
      ''naruto'' 20 = Inr [exact_result (titled ''a1'' ''Naruto'')]"
    by code_simp
  have p1: "spec_priority example_lib ''naruto'' ''Naruto'' = 100" by code_simp
  have k1: "spec_keep example_lib ''naruto'' ''Naruto''" by code_simp
  have p3: "spec_priority example_lib ''naruto'' ''Naruto Shippuden'' = 80" by code_simp
  have k3: "spec_keep example_lib ''naruto'' ''Naruto Shippuden''" by code_simp
  have p2: "spec_priority example_lib ''naruto'' ''K'' = 0" by code_simp
  have k2: "\<not> spec_keep example_lib ''naruto'' ''K''" by code_simp
  have x: "(20 :: rat) < 3602879701896397 / 9007199254740992 * 50" by simp
  have p4: "spec_priority (ratio_lib (3602879701896397 / 9007199254740992)) ''ab'' ''bcd'' = 20"
    by code_simp
  have k4: "\<not> spec_keep (ratio_lib (3602879701896397 / 9007199254740992)) ''ab'' ''bcd''"
    by code_simp
  have s4: "flexible_search (ratio_lib (3602879701896397 / 9007199254740992))
      [titled ''a1'' ''bcd''] ''ab'' 20 = Inr []"
    by code_simp
  show ?thesis
    using e s20 s1 search p1 k1 p3 k3 p2 k2 x p4 k4 s4 by (simp only: simp_thms)
qed

text \<open>
  Claim C1 as stated fails on two inputs. For the empty query the result is empty,
  although the normalized title of \<^verbatim>\<open>Naruto\<close> starts with the normalized query. And
  with twenty-one entries titled \<^verbatim>\<open>Naruto\<close>, the query \<^verbatim>\<open>naruto\<close> and the limit 20,
  the entry \<^verbatim>\<open>21\<close> has priority 100 and is not in the result, which holds the first
  twenty entries.
\<close>

theorem flexible_search_drops_kept_candidates:
  "flexible_search example_lib [titled ''a1'' ''Naruto''] [] 20 = Inr [] \<and>
   startswith (normalize_text example_lib ''Naruto'') (normalize_text example_lib []) \<and>
   score_anime example_lib ''naruto'' (titled ''21'' ''Naruto'') =
     Some (exact_result (titled ''21'' ''Naruto'')) \<and>
   titled ''21'' ''Naruto'' \<in> set twenty_one_naruto \<and>
   flexible_search example_lib twenty_one_naruto ''naruto'' 20 =
     Inr (map exact_result (take 20 twenty_one_naruto)) \<and>
   titled ''21'' ''Naruto'' \<notin> set (take 20 twenty_one_naruto)"
proof (intro conjI)
  show "flexible_search example_lib [titled ''a1'' ''Naruto''] [] 20 = Inr []"
    by (simp add: flexible_search_def)
  show "startswith (normalize_text example_lib ''Naruto'') (normalize_text example_lib [])"
    by (simp add: startswith_def normalize_text_def)
  show "score_anime example_lib ''naruto'' (titled ''21'' ''Naruto'') =
     Some (exact_result (titled ''21'' ''Naruto''))"
    by code_simp
  show "titled ''21'' ''Naruto'' \<in> set twenty_one_naruto"
    by (simp add: twenty_one_naruto_def)
  show "flexible_search example_lib twenty_one_naruto ''naruto'' 20 =
     Inr (map exact_result (take 20 twenty_one_naruto))"
    by code_simp
  show "titled ''21'' ''Naruto'' \<notin> set (take 20 twenty_one_naruto)"
    by (simp add: twenty_one_naruto_def titled_def)
qed

section \<open>Properties of the search for a catalogue title\<close>

lemma score_anime_SomeD:
  assumes "score_anime L query a = Some y"
  shows "entry y = a \<and> priority y = spec_priority L query (title_of a) \<and>
         spec_keep L query (title_of a) \<and>
         (normalize_text L query = normalize_text L (title_of a) \<longrightarrow> match_type y = Exact)"
  using assms unfolding score_anime_spec
  by (auto split: if_splits simp: spec_result_def spec_match_type_def)

lemma map_filter_score_result:
  assumes "r \<in> set (List.map_filter (score_anime L query) all_anime)"
  shows "entry r \<in> set all_anime \<and> score_anime L query (entry r) = Some r"
  using assms
proof (induction all_anime)
  case Nil
  then show ?case by (simp add: List.map_filter_simps)
next
  case (Cons a rest)
  show ?case
  proof (cases "score_anime L query a")
    case None
    then show ?thesis using Cons by (simp add: List.map_filter_simps)
  next
    case (Some y)
    then have "entry y = a" using score_anime_SomeD [of L query a y] by simp
    then have "score_anime L query (entry y) = Some y" using Some by simp
    then show ?thesis
      using Cons Some \<open>entry y = a\<close> by (auto simp add: List.map_filter_simps)
  qed
qed

lemma map_filter_score_intro:
  assumes "a \<in> set all_anime" "score_anime L query a = Some r"
  shows "r \<in> set (List.map_filter (score_anime L query) all_anime)"
  using assms
  by (induction all_anime) (auto simp: List.map_filter_simps split: option.splits)

lemma spec_priority_bound:
  assumes "\<forall>x y. seq_ratio L x y \<le> 1"
  shows "spec_priority L query t \<le> 100 \<and>
         (normalize_text L query \<noteq> normalize_text L t \<longrightarrow> spec_priority L query t \<le> 90)"
proof -
  define r where "r = seq_ratio L (lower query) (lower t)"
  have r: "r \<le> 1" unfolding r_def using assms by blast
  have m10: "float_mul r 10 \<le> 10"
    unfolding float_mul_def using round_double_le [of "r * 10" 10] r by simp
  have m50: "float_mul r 50 \<le> 50"
    unfolding float_mul_def using round_double_le [of "r * 50" 50] r by simp
  have a80: "float_add 80 (float_mul r 10) \<le> 90"
    unfolding float_add_def using round_double_le [of "80 + float_mul r 10" 90] m10 by simp
  have a60: "float_add 60 (float_mul r 10) \<le> 70"
    unfolding float_add_def using round_double_le [of "60 + float_mul r 10" 70] m10 by simp
  show ?thesis
    using m50 a80 a60 by (auto simp: spec_priority_def r_def [symmetric])
qed

lemma score_anime_own_title:
  assumes "a_title t = Some tt"
  shows "score_anime L tt t = Some (exact_result t)"
  using assms
  by (simp add: score_anime_spec spec_keep_def spec_priority_def title_of_def exact_result_def
      spec_result_def spec_match_type_def)

lemma sorted_hd_le:
  assumes "sorted (map f ys)" "y \<in> set ys"
  shows "f (hd ys) \<le> f y"
  using assms by (cases ys) auto

lemma find_Some_hd_filter:
  "find P xs = Some x \<Longrightarrow> hd (filter P xs) = x"
  by (induction xs) (auto split: if_splits)

lemma hd_filter_hd:
  "ys \<noteq> [] \<Longrightarrow> P (hd ys) \<Longrightarrow> hd (filter P ys) = hd ys"
  by (cases ys) auto

lemma hd_sort_key_first_minimum:
  assumes x: "x \<in> set xs" and least: "\<forall>y \<in> set xs. f x \<le> f y"
    and first: "find (\<lambda>y. f y = f x) xs = Some x"
  shows "hd (sort_key f xs) = x"
proof -
  let ?ys = "sort_key f xs"
  have ne: "?ys \<noteq> []" using x by (metis empty_iff list.set(1) set_sort)
  have "f (hd ?ys) \<le> f x"
    using sorted_hd_le [of f ?ys x] x by simp
  moreover have "hd ?ys \<in> set xs" using ne by (metis list.set_sel(1) set_sort)
  ultimately have eq: "f (hd ?ys) = f x" using least by force
  have "hd ?ys = hd (filter (\<lambda>y. f y = f x) ?ys)"
    using hd_filter_hd [OF ne, of "\<lambda>y. f y = f x"] eq by simp
  also have "\<dots> = hd (filter (\<lambda>y. f y = f x) xs)"
    by (simp only: sort_key_stable)
  also have "\<dots> = x" using first by (rule find_Some_hd_filter)
  finally show ?thesis .
qed

lemma find_exact_title:
  assumes "\<forall>a \<in> set all_anime. a_title a \<noteq> None"
  shows "find (\<lambda>y. (- priority y, title_of (entry y)) = (- 100, tt))
           (List.map_filter (score_anime L tt) all_anime) =
         map_option exact_result (find (\<lambda>a. a_title a = Some tt) all_anime)"
  using assms
proof (induction all_anime)
  case Nil
  show ?case by (simp add: List.map_filter_simps)
next
  case (Cons a rest)
  then obtain ta where ta: "a_title a = Some ta" by auto
  have IH: "find (\<lambda>y. (- priority y, title_of (entry y)) = (- 100, tt))
           (List.map_filter (score_anime L tt) rest) =
         map_option exact_result (find (\<lambda>a. a_title a = Some tt) rest)"
    using Cons by simp
  show ?case
  proof (cases "ta = tt")
    case True
    then show ?thesis
      using ta score_anime_own_title [of a tt L]
      by (simp add: List.map_filter_simps exact_result_def title_of_def)
  next
    case False
    show ?thesis
    proof (cases "score_anime L tt a")
      case None
      then show ?thesis using ta False IH by (simp add: List.map_filter_simps)
    next
      case (Some y)
      then have "entry y = a" using score_anime_SomeD [of L tt a y] by simp
      then have "title_of (entry y) \<noteq> tt" using ta False by (simp add: title_of_def)
      then show ?thesis using Some ta False IH by (simp add: List.map_filter_simps)
    qed
  qed
qed

lemma py_slice_hd:
  assumes "xs \<noteq> []" "1 \<le> limit"
  shows "\<exists>rs. py_slice xs 0 limit = hd xs # rs"
proof -
  have "0 < nat (min (int (length xs)) limit)" using assms by (cases xs) auto
  then obtain k where "nat (min (int (length xs)) limit) = Suc k"
    using gr0_implies_Suc by blast
  then have "py_slice xs 0 limit = take (Suc k) xs"
    using assms(2) by (simp add: py_slice_from_0)
  then show ?thesis using assms(1) by (cases xs) auto
qed

text \<open>
  Claim C3, as amended. Let \<open>t\<close> be a catalogue entry with a title that is not empty,
  in a catalogue whose entries all have a title, let the similarity ratio be at most 1
  and the limit at least 1. Then the search for the title of \<open>t\<close> scores \<open>t\<close> as an
  exact match with priority 100, and it returns a list whose first element is an exact
  match with priority 100 and with the normalized title of \<open>t\<close>. That first element is
  \<open>t\<close> itself when no entry with the same normalized title has a title that sorts
  before the title of \<open>t\<close>, and \<open>t\<close> is the first entry of the catalogue with its
  title.
\<close>

theorem flexible_search_own_title:
  assumes t: "t \<in> set all_anime" "a_title t = Some tt" "tt \<noteq> []"
    and titles: "\<forall>a \<in> set all_anime. a_title a \<noteq> None"
    and ratio: "\<forall>x y. seq_ratio L x y \<le> 1"
    and limit: "1 \<le> limit"
  shows "score_anime L tt t = Some (exact_result t) \<and>
     (\<exists>r rs. flexible_search L all_anime tt limit = Inr (r # rs) \<and>
        priority r = 100 \<and> match_type r = Exact \<and>
        normalize_text L (title_of (entry r)) = normalize_text L tt \<and>
        ((\<forall>a \<in> set all_anime.
            normalize_text L (title_of a) = normalize_text L tt \<longrightarrow> tt \<le> title_of a) \<and>
         find (\<lambda>a. a_title a = Some tt) all_anime = Some t \<longrightarrow>
         r = exact_result t))"
proof -
  let ?results = "List.map_filter (score_anime L tt) all_anime"
  let ?key = "\<lambda>x. (- priority x, title_of (entry x))"
  let ?sorted = "sort_key ?key ?results"
  have own: "score_anime L tt t = Some (exact_result t)"
    using t(2) by (rule score_anime_own_title)
  then have mem: "exact_result t \<in> set ?results"
    using t(1) by (intro map_filter_score_intro)
  then have ne: "?sorted \<noteq> []" by (metis empty_iff list.set(1) set_sort)
  have "all_anime \<noteq> []" using t(1) by auto
  from flexible_search_sorted [OF t(3) this titles, of L limit, unfolded rank_key_def]
    py_slice_hd [OF ne limit]
  obtain rs where fs: "flexible_search L all_anime tt limit = Inr (hd ?sorted # rs)"
    by auto
  have key_own: "?key (exact_result t) = (- 100, tt)"
    using t(2) by (simp add: exact_result_def title_of_def)
  have result_facts: "priority y = spec_priority L tt (title_of (entry y)) \<and>
      (normalize_text L tt = normalize_text L (title_of (entry y)) \<longrightarrow> match_type y = Exact)"
    if "y \<in> set ?results" for y
    using score_anime_SomeD [of L tt "entry y" y] map_filter_score_result [OF that] by simp
  have hd_in: "hd ?sorted \<in> set ?results" using ne by (metis list.set_sel(1) set_sort)
  have "?key (hd ?sorted) \<le> ?key (exact_result t)"
    using sorted_hd_le [of ?key ?sorted "exact_result t"] mem by simp
  then have ge: "100 \<le> priority (hd ?sorted)"
    unfolding key_own by (simp add: less_eq_prod_def) linarith
  have bound: "priority (hd ?sorted) \<le> 100 \<and>
      (normalize_text L tt \<noteq> normalize_text L (title_of (entry (hd ?sorted))) \<longrightarrow>
         priority (hd ?sorted) \<le> 90)"
    using spec_priority_bound [OF ratio, of tt "title_of (entry (hd ?sorted))"]
      result_facts [OF hd_in] by simp
  have hd_prio: "priority (hd ?sorted) = 100" using ge bound by linarith
  have hd_norm: "normalize_text L tt = normalize_text L (title_of (entry (hd ?sorted)))"
    using ge bound by force
  have hd_type: "match_type (hd ?sorted) = Exact"
    using result_facts [OF hd_in] hd_norm by simp
  have first: "hd ?sorted = exact_result t"
    if least: "\<forall>a \<in> set all_anime.
            normalize_text L (title_of a) = normalize_text L tt \<longrightarrow> tt \<le> title_of a"
      and pos: "find (\<lambda>a. a_title a = Some tt) all_anime = Some t"
  proof (rule hd_sort_key_first_minimum [OF mem])
    show "\<forall>y \<in> set ?results. ?key (exact_result t) \<le> ?key y"
    proof
      fix y assume y: "y \<in> set ?results"
      have ya: "entry y \<in> set all_anime" using map_filter_score_result [OF y] by simp
      show "?key (exact_result t) \<le> ?key y"
      proof (cases "normalize_text L tt = normalize_text L (title_of (entry y))")
        case True
        then have "tt \<le> title_of (entry y)" using least ya by simp
        moreover have "priority y \<le> 100"
          using spec_priority_bound [OF ratio, of tt "title_of (entry y)"] result_facts [OF y]
          by simp
        ultimately show ?thesis unfolding key_own by (simp add: less_eq_prod_def)
      next
        case False
        then have "priority y \<le> 90"
          using spec_priority_bound [OF ratio, of tt "title_of (entry y)"] result_facts [OF y]
          by simp
        then show ?thesis unfolding key_own by (simp add: less_eq_prod_def)
      qed
    qed
    show "find (\<lambda>y. ?key y = ?key (exact_result t)) ?results = Some (exact_result t)"
      unfolding key_own find_exact_title [OF titles] pos by simp
  qed
  show ?thesis
    using own fs hd_prio hd_norm hd_type first by simp
qed


theorem flexible_search_own_title_witness:
  "titled ''a1'' ''Naruto'' \<in> set [titled ''a1'' ''Naruto'', titled ''a2'' ''K''] \<and>
   a_title (titled ''a1'' ''Naruto'') = Some ''Naruto'' \<and>
   score_anime example_lib ''Naruto'' (titled ''a1'' ''Naruto'') =
     Some (exact_result (titled ''a1'' ''Naruto'')) \<and>
   flexible_search example_lib [titled ''a1'' ''Naruto'', titled ''a2'' ''K''] ''Naruto'' 20 =
     Inr [exact_result (titled ''a1'' ''Naruto'')]"
proof -
  have m: "titled ''a1'' ''Naruto'' \<in> set [titled ''a1'' ''Naruto'', titled ''a2'' ''K'']"
    by simp
  have t: "a_title (titled ''a1'' ''Naruto'') = Some ''Naruto''"
    by (simp add: titled_def)
  have s: "score_anime example_lib ''Naruto'' (titled ''a1'' ''Naruto'') =
     Some (exact_result (titled ''a1'' ''Naruto''))"
    by code_simp
  have f: "flexible_search example_lib [titled ''a1'' ''Naruto'', titled ''a2'' ''K'']
      ''Naruto'' 20 = Inr [exact_result (titled ''a1'' ''Naruto'')]"
    by code_simp
  show ?thesis
    using flexible_search_own_title
      [of "titled ''a1'' ''Naruto''" "[titled ''a1'' ''Naruto'', titled ''a2'' ''K'']"
          "''Naruto''" example_lib 20]
      m t s f
    by blast
qed

text \<open>
  Claim C3 as stated fails on two inputs. In the catalogue of \<^verbatim>\<open>Naruto\<close> and
  \<^verbatim>\<open>naruto\<close> both entries match the query \<^verbatim>\<open>naruto\<close> exactly with priority 100,
  and the tie is broken by the title: \<^verbatim>\<open>Naruto\<close> sorts first, so the entry whose
  title was searched is at rank 1. And for an entry whose title is empty the search for
  its title returns nothing.
\<close>

theorem flexible_search_own_title_not_first:
  "flexible_search example_lib [titled ''a1'' ''Naruto'', titled ''a2'' ''naruto''] ''naruto''
     20 =
     Inr [exact_result (titled ''a1'' ''Naruto''), exact_result (titled ''a2'' ''naruto'')] \<and>
   exact_result (titled ''a1'' ''Naruto'') \<noteq> exact_result (titled ''a2'' ''naruto'') \<and>
   flexible_search example_lib [titled ''a3'' []] [] 20 = Inr []"
proof (intro conjI)
  show "flexible_search example_lib [titled ''a1'' ''Naruto'', titled ''a2'' ''naruto'']
      ''naruto'' 20 =
     Inr [exact_result (titled ''a1'' ''Naruto''), exact_result (titled ''a2'' ''naruto'')]"
    by code_simp
  show "exact_result (titled ''a1'' ''Naruto'') \<noteq> exact_result (titled ''a2'' ''naruto'')"
    by (simp add: exact_result_def titled_def)
  show "flexible_search example_lib [titled ''a3'' []] [] 20 = Inr []"
    by (simp add: flexible_search_def)
qed

section \<open>Properties of title cleaning\<close>






lemma hyphen_not_space: "\<not> isspace (CHR ''-'')"
  by (simp add: isspace_def)

























end
